theory Spec2Isabelle
  imports Complex_Main "HOL-Library.Sublist"
begin

section \<open>The export pipeline driver \<^verbatim>\<open>tools/deploy.py\<close>\<close>

text \<open>
  The driver sequences four external collaborators (\<^verbatim>\<open>torch2onnx\<close>, \<^verbatim>\<open>extract_model\<close>,
  \<^verbatim>\<open>onnx2tensorrt\<close>, \<^verbatim>\<open>inference_model\<close>), each in a worker process of its own, and reads
  a shared flag after each of them.  The collaborators are opaque: the model takes what a
  worker does to the world and to the shared memory as a parameter, and every theorem holds
  for all such behaviours.
\<close>

subsection \<open>Paths: the three \<^verbatim>\<open>os.path\<close> functions the driver calls (POSIX flavour)\<close>

text \<open>\<^verbatim>\<open>str.rfind\<close> for a single character: the last index of \<open>c\<close>, or \<open>-1\<close>.\<close>

definition rfind :: "string \<Rightarrow> char \<Rightarrow> int" where
  "rfind p c =
     (if c \<in> set p
      then int (length p) - 1 - int (length (takeWhile (\<lambda>x. x \<noteq> c) (rev p)))
      else - 1)"

text \<open>
  \<^verbatim>\<open>osp.join(a, b)\<close>: an absolute \<open>b\<close> replaces \<open>a\<close>; otherwise \<open>b\<close> is appended, with a
  separator unless \<open>a\<close> is empty or already ends in one.
\<close>

definition osp_join :: "string \<Rightarrow> string \<Rightarrow> string" where
  "osp_join a b =
     (if b \<noteq> [] \<and> hd b = CHR ''/'' then b
      else if a = [] \<or> last a = CHR ''/'' then a @ b
      else a @ ''/'' @ b)"

text \<open>
  \<^verbatim>\<open>osp.split(p)\<close>: the part after the last separator is the tail; the head loses its
  trailing separators unless it consists of separators only.
\<close>

definition osp_split :: "string \<Rightarrow> string \<times> string" where
  "osp_split p =
     (let i = nat (rfind p CHR ''/'' + 1);
          head = take i p;
          tail = drop i p
      in (if head \<noteq> [] \<and> head \<noteq> replicate (length head) CHR ''/''
          then rev (dropWhile (\<lambda>x. x = CHR ''/'') (rev head))
          else head,
          tail))"

text \<open>
  \<^verbatim>\<open>osp.splitext(p)\<close>: the extension starts at the last dot, provided that dot lies after
  the last separator and some character between the two is not a dot (leading dots of a
  file name do not start an extension).
\<close>

definition osp_splitext :: "string \<Rightarrow> string \<times> string" where
  "osp_splitext p =
     (let sepIndex = rfind p CHR ''/'';
          dotIndex = rfind p CHR ''.''
      in if dotIndex > sepIndex \<and>
            list_ex (\<lambda>x. x \<noteq> CHR ''.'')
              (take (nat (dotIndex - (sepIndex + 1))) (drop (nat (sepIndex + 1)) p))
         then (take (nat dotIndex) p, drop (nat dotIndex) p)
         else (p, []))"

subsection \<open>Command line and deployment configuration\<close>

text \<open>
  The choices of \<^verbatim>\<open>--log-level\<close> are the keys of \<^verbatim>\<open>logging._nameToLevel\<close>;
  \<^verbatim>\<open>Logger.setLevel\<close> turns a name into its number.
\<close>

datatype level_name = CRITICAL | FATAL | ERROR | WARN | WARNING | INFO | DEBUG | NOTSET

fun nameToLevel :: "level_name \<Rightarrow> nat" where
  "nameToLevel CRITICAL = 50"
| "nameToLevel FATAL = 50"
| "nameToLevel ERROR = 40"
| "nameToLevel WARN = 30"
| "nameToLevel WARNING = 30"
| "nameToLevel INFO = 20"
| "nameToLevel DEBUG = 10"
| "nameToLevel NOTSET = 0"

text \<open>
  The namespace returned by \<^verbatim>\<open>parse_args\<close>.  \<^verbatim>\<open>--work-dir\<close> has no default, so it may be
  \<^verbatim>\<open>None\<close>; \<^verbatim>\<open>--show\<close> is the field \<open>show_result\<close>.
\<close>

record args =
  deploy_cfg :: string
  model_cfg :: string
  checkpoint :: string
  img :: string
  work_dir :: "string option"
  device :: string
  log_level :: level_name
  show_result :: bool

text \<open>
  The loaded configuration, with the keys the driver reads.  A key that may be absent is an
  option: \<open>None\<close> is the absent key.
\<close>

record split_param =
  sp_save_file :: string
  sp_start :: string
  sp_end :: string

record model_param =
  mp_save_file :: "string option"

record trt_params =
  model_params :: "model_param list option"

record config =
  pytorch2onnx :: "string option option"
    \<comment> \<open>the section, and inside it the key \<^verbatim>\<open>save_file\<close>\<close>
  apply_marks :: "bool option"
  split_params :: "split_param list option"
  backend :: "string option"
  tensorrt_params :: "trt_params option"
  codebase :: "string option"

subsection \<open>Collaborator calls, events and the driver's state\<close>

text \<open>
  One constructor per collaborator, with the positional and keyword arguments the driver
  passes, in the order of the source; the last field is the keyword \<^verbatim>\<open>ret_value\<close>, the
  address of the shared flag.
\<close>

datatype call =
    Torch2onnx string string string string string string string nat
      \<comment> \<open>img, work_dir, save_file, deploy_cfg_path, model_cfg_path, checkpoint_path, device\<close>
  | Extract_model string string string string nat
      \<comment> \<open>origin_onnx_file, start, end, save_file\<close>
  | Onnx2tensorrt string string nat string string string nat
      \<comment> \<open>work_dir, save_file, model_id, deploy_cfg_path, onnx_path, device\<close>
  | Inference_model string "string list" string string string string string bool nat
      \<comment> \<open>model_cfg_path, files, img, codebase, backend, device, output_file, show_result\<close>

fun ret_value_of :: "call \<Rightarrow> nat" where
  "ret_value_of (Torch2onnx _ _ _ _ _ _ _ r) = r"
| "ret_value_of (Extract_model _ _ _ _ r) = r"
| "ret_value_of (Onnx2tensorrt _ _ _ _ _ _ r) = r"
| "ret_value_of (Inference_model _ _ _ _ _ _ _ _ r) = r"

fun output_file_of :: "call \<Rightarrow> string" where
  "output_file_of (Inference_model _ _ _ _ _ _ out _ _) = out"
| "output_file_of _ = []"

datatype severity = Info | Error

text \<open>
  What a run does, in order: calls of \<^verbatim>\<open>logging.info\<close> and \<^verbatim>\<open>logging.error\<close>, the creation
  of a shared value, a store of the driver into a shared value, and a worker that ran a
  collaborator.  \<open>Ran c l b a\<close>: the collaborator call \<open>c\<close> ran in a worker whose root logger had
  level \<open>l\<close>; the flag of \<open>c\<close> held \<open>b\<close> when the worker started and \<open>a\<close> when it had been
  joined.  \<open>Store r v\<close> is an assignment \<^verbatim>\<open>ret_value.value = v\<close> in the driver process; the
  source has none, so no function below adds this event.
\<close>

datatype event =
    Log severity string
  | NewValue nat real
  | Store nat real
  | Ran call nat real real

datatype error =
    TypeError
  | KeyError string
  | IndexError
  | AssertionError
  | OSError
  | ImportError
  | SystemExit "int option"

text \<open>
  The exit status of the interpreter for the way \<^verbatim>\<open>main()\<close> ends: \<^verbatim>\<open>SystemExit\<close> carries
  its status, and no status (\<^verbatim>\<open>None\<close>) is status 0; any other uncaught exception is
  status 1.
\<close>

fun exit_status :: "error + unit \<Rightarrow> int" where
  "exit_status (Inr _) = 0"
| "exit_status (Inl (SystemExit None)) = 0"
| "exit_status (Inl (SystemExit (Some n))) = n"
| "exit_status (Inl _) = 1"

text \<open>
  The state of the driver process and of what it shares with its workers: the world outside
  (file system, devices), the shared memory (\<open>heap\<close>, with \<open>next_addr\<close> the next free
  address), the level of the driver's root logger, the two list variables of \<^verbatim>\<open>main\<close>, and
  the events so far.
\<close>

record 'w state =
  world :: 'w
  heap :: "nat \<Rightarrow> real"
  next_addr :: nat
  level :: nat
  onnx_files :: "string list"
  backend_files :: "string list"
  trace :: "event list"

text \<open>
  The environment: what a collaborator does, given its call and the level of the worker's
  root logger, to the world and the shared memory (a worker is taken to finish: the driver
  has no timeout); what \<^verbatim>\<open>mmcv.mkdir_or_exist(osp.abspath(work_dir))\<close> does to the world, or
  the error it raises (\<^verbatim>\<open>FileExistsError\<close> when the path is an existing file, say); and
  whether the import of \<^verbatim>\<open>mmdeploy.apis.tensorrt\<close> in line 127 raises.
\<close>

record 'w env =
  collab :: "call \<Rightarrow> nat \<Rightarrow> 'w \<times> (nat \<Rightarrow> real) \<Rightarrow> 'w \<times> (nat \<Rightarrow> real)"
  mkdir_or_exist :: "string \<Rightarrow> 'w \<Rightarrow> error + 'w"
  import_tensorrt :: "error option"

text \<open>A worker process: only its root logger matters here.\<close>

record proc =
  root_level :: nat

text \<open>A freshly spawned interpreter: the root logger is at \<^verbatim>\<open>WARNING\<close>.\<close>

definition spawned :: proc where
  "spawned = \<lparr>root_level = 30\<rparr>"

definition init :: "'w \<Rightarrow> 'w state" where
  "init w = \<lparr>world = w, heap = (\<lambda>_. 0), next_addr = 0, level = 30,
             onnx_files = [], backend_files = [], trace = []\<rparr>"

definition log :: "severity \<Rightarrow> string \<Rightarrow> 'w state \<Rightarrow> 'w state" where
  "log sev msg s = s\<lparr>trace := trace s @ [Log sev msg]\<rparr>"

text \<open>\<^verbatim>\<open>mp.Value('d', v, lock=False)\<close>: a new cell of shared memory.\<close>

definition mp_Value :: "real \<Rightarrow> 'w state \<Rightarrow> nat \<times> 'w state" where
  "mp_Value v s =
     (next_addr s,
      s\<lparr>heap := (heap s)(next_addr s := v),
        next_addr := Suc (next_addr s),
        trace := trace s @ [NewValue (next_addr s) v]\<rparr>)"

subsection \<open>The process runner\<close>

text \<open>The collaborator itself, running in worker \<open>p\<close>.\<close>

definition run_target ::
  "'w env \<Rightarrow> call \<Rightarrow> proc \<Rightarrow> 'w state \<Rightarrow> 'w state" where
  "run_target env c p s =
     (let (w', h') = collab env c (root_level p) (world s, heap s)
      in s\<lparr>world := w', heap := h',
           trace := trace s @
             [Ran c (root_level p) (heap s (ret_value_of c)) (h' (ret_value_of c))]\<rparr>)"

text \<open>\<^verbatim>\<open>target_wrapper\<close>: set the level of the worker's root logger, then call the target.\<close>

definition target_wrapper ::
  "(call \<Rightarrow> proc \<Rightarrow> 's \<Rightarrow> 's) \<Rightarrow> nat \<Rightarrow> call \<Rightarrow> proc \<Rightarrow> 's \<Rightarrow> 's" where
  "target_wrapper target log_level' c p s = target c (p\<lparr>root_level := log_level'\<rparr>) s"

text \<open>
  \<^verbatim>\<open>create_process(name, target, args, kwargs, ret_value)\<close>; \<open>c\<close> stands for target, args and
  kwargs.  \<^verbatim>\<open>exit()\<close> raises \<^verbatim>\<open>SystemExit\<close> with no status.
\<close>

definition create_process ::
  "'w env \<Rightarrow> string \<Rightarrow> call \<Rightarrow> nat option \<Rightarrow> 'w state \<Rightarrow> (error + unit) \<times> 'w state" where
  "create_process env name c ret_value s =
     (let s1 = log Info (name @ '' start.'') s;
          log_level' = level s1;
          wrap_func = target_wrapper (run_target env) log_level';
          s2 = wrap_func c spawned s1
      in case ret_value of
           None \<Rightarrow> (Inr (), s2)
         | Some r \<Rightarrow>
             if heap s2 r \<noteq> 0
             then (Inl (SystemExit None), log Error (name @ '' failed.'') s2)
             else (Inr (), log Info (name @ '' success.'') s2))"

subsection \<open>The stages of \<^verbatim>\<open>main\<close>\<close>

definition and_then ::
  "('s \<Rightarrow> (error + 'a) \<times> 's) \<Rightarrow> ('a \<Rightarrow> 's \<Rightarrow> (error + 'b) \<times> 's) \<Rightarrow>
   's \<Rightarrow> (error + 'b) \<times> 's" where
  "and_then m f s = (case m s of (Inl e, s') \<Rightarrow> (Inl e, s') | (Inr x, s') \<Rightarrow> f x s')"

text \<open>Lines 82 to 93: export to the intermediate format.\<close>

definition convert_onnx ::
  "'w env \<Rightarrow> args \<Rightarrow> config \<Rightarrow> string \<Rightarrow> nat \<Rightarrow> 'w state \<Rightarrow> (error + unit) \<times> 'w state" where
  "convert_onnx env a cfg wd rv s =
     (case pytorch2onnx cfg of
        None \<Rightarrow> (Inl (KeyError ''pytorch2onnx''), s)
      | Some None \<Rightarrow> (Inl (KeyError ''save_file''), s)
      | Some (Some onnx_save_file) \<Rightarrow>
          and_then
            (create_process env ''torch2onnx''
               (Torch2onnx (img a) wd onnx_save_file (deploy_cfg a) (model_cfg a)
                  (checkpoint a) (device a) rv)
               (Some rv))
            (\<lambda>_ s'. (Inr (), s'\<lparr>onnx_files := [osp_join wd onnx_save_file]\<rparr>)) s)"

text \<open>The loop of lines 103 to 116.\<close>

fun split_loop ::
  "'w env \<Rightarrow> string \<Rightarrow> nat \<Rightarrow> string \<Rightarrow> split_param list \<Rightarrow> 'w state \<Rightarrow>
   (error + unit) \<times> 'w state" where
  "split_loop env wd rv origin_onnx_file [] s = (Inr (), s)"
| "split_loop env wd rv origin_onnx_file (split_param # rest) s =
     (let save_file = sp_save_file split_param;
          save_path = osp_join wd save_file;
          start = sp_start split_param;
          end' = sp_end split_param
      in case create_process env
                (''split model '' @ save_file @ '' with start: '' @ start @ '', end: '' @ end')
                (Extract_model origin_onnx_file start end' save_path rv)
                (Some rv) s of
           (Inl e, s') \<Rightarrow> (Inl e, s')
         | (Inr _, s') \<Rightarrow>
             split_loop env wd rv origin_onnx_file rest
               (s'\<lparr>onnx_files := onnx_files s' @ [save_path]\<rparr>))"

text \<open>Lines 96 to 116: the split stage.\<close>

definition split_model ::
  "'w env \<Rightarrow> config \<Rightarrow> string \<Rightarrow> nat \<Rightarrow> 'w state \<Rightarrow> (error + unit) \<times> 'w state" where
  "split_model env cfg wd rv s =
     (if (case apply_marks cfg of None \<Rightarrow> False | Some b \<Rightarrow> b)
      then case split_params cfg of
             None \<Rightarrow> (Inl AssertionError, s)
           | Some sps \<Rightarrow>
               (case onnx_files s of
                  [] \<Rightarrow> (Inl IndexError, s)
                | origin_onnx_file # _ \<Rightarrow>
                    split_loop env wd rv origin_onnx_file sps (s\<lparr>onnx_files := []\<rparr>))
      else (Inr (), s))"

text \<open>\<^verbatim>\<open>deploy_cfg.get('backend', 'default')\<close>.\<close>

definition get_backend :: "config \<Rightarrow> string" where
  "get_backend cfg = (case backend cfg of None \<Rightarrow> ''default'' | Some b \<Rightarrow> b)"

text \<open>\<^verbatim>\<open>osp.splitext(osp.split(onnx_path)[1])[0]\<close>.\<close>

definition onnx_name :: "string \<Rightarrow> string" where
  "onnx_name onnx_path = fst (osp_splitext (snd (osp_split onnx_path)))"

text \<open>\<^verbatim>\<open>model_param.get('save_file', onnx_name + '.engine')\<close>.\<close>

definition engine_file :: "model_param \<Rightarrow> string \<Rightarrow> string" where
  "engine_file model_param onnx_path =
     (case mp_save_file model_param of
        None \<Rightarrow> onnx_name onnx_path @ ''.engine''
      | Some f \<Rightarrow> f)"

text \<open>The loop of lines 129 to 142, over the zipped triples.\<close>

fun trt_loop ::
  "'w env \<Rightarrow> args \<Rightarrow> string \<Rightarrow> nat \<Rightarrow> (nat \<times> model_param \<times> string) list \<Rightarrow> 'w state \<Rightarrow>
   (error + unit) \<times> 'w state" where
  "trt_loop env a wd rv [] s = (Inr (), s)"
| "trt_loop env a wd rv ((model_id, model_param, onnx_path) # rest) s =
     (let save_file = engine_file model_param onnx_path
      in case create_process env (''onnx2tensorrt of '' @ onnx_path)
                (Onnx2tensorrt wd save_file model_id (deploy_cfg a) onnx_path (device a) rv)
                (Some rv) s of
           (Inl e, s') \<Rightarrow> (Inl e, s')
         | (Inr _, s') \<Rightarrow>
             trt_loop env a wd rv rest
               (s'\<lparr>backend_files := backend_files s' @ [osp_join wd save_file]\<rparr>))"

text \<open>\<^verbatim>\<open>tensorrt_params.get('model_params', [])\<close>.\<close>

definition get_model_params :: "trt_params \<Rightarrow> model_param list" where
  "get_model_params tp = (case model_params tp of None \<Rightarrow> [] | Some m \<Rightarrow> m)"

text \<open>\<^verbatim>\<open>zip(range(len(onnx_files)), model_params, onnx_files)\<close>.\<close>

definition trt_triples ::
  "model_param list \<Rightarrow> string list \<Rightarrow> (nat \<times> model_param \<times> string) list" where
  "trt_triples mps files = zip [0..<length files] (zip mps files)"

text \<open>Lines 118 to 142: the backend stage.\<close>

definition convert_backend ::
  "'w env \<Rightarrow> args \<Rightarrow> config \<Rightarrow> string \<Rightarrow> nat \<Rightarrow> 'w state \<Rightarrow> (error + unit) \<times> 'w state" where
  "convert_backend env a cfg wd rv s0 =
     (let s = s0\<lparr>backend_files := onnx_files s0\<rparr>
      in if get_backend cfg = ''tensorrt''
         then case tensorrt_params cfg of
                None \<Rightarrow> (Inl AssertionError, s)
              | Some tp \<Rightarrow>
                  (let mps = get_model_params tp
                   in if length mps \<noteq> length (onnx_files s)
                      then (Inl AssertionError, s)
                      else case import_tensorrt env of
                             Some e \<Rightarrow> (Inl e, s)
                           | None \<Rightarrow>
                               trt_loop env a wd rv (trt_triples mps (onnx_files s))
                                 (s\<lparr>backend_files := []\<rparr>))
         else (Inr (), s))"

text \<open>Lines 144 to 175: the two visualizations and the closing log line.\<close>

definition visualize ::
  "'w env \<Rightarrow> args \<Rightarrow> config \<Rightarrow> nat \<Rightarrow> 'w state \<Rightarrow> (error + unit) \<times> 'w state" where
  "visualize env a cfg rv s =
     (case codebase cfg of
        None \<Rightarrow> (Inl (KeyError ''codebase''), s)
      | Some cb \<Rightarrow>
          and_then
            (create_process env (''visualize '' @ get_backend cfg @ '' model'')
               (Inference_model (model_cfg a) (backend_files s) (img a) cb (get_backend cfg)
                  (device a) (''output_'' @ get_backend cfg @ ''.jpg'') (show_result a) rv)
               (Some rv))
            (\<lambda>_. and_then
               (create_process env ''visualize pytorch model''
                  (Inference_model (model_cfg a) [checkpoint a] (img a) cb ''pytorch''
                     (device a) ''output_pytorch.jpg'' (show_result a) rv)
                  (Some rv))
               (\<lambda>_ s'. (Inr (), log Info ''All process success.'' s'))) s)"

text \<open>
  \<^verbatim>\<open>main\<close>, from the parsed arguments and the loaded configuration (\<^verbatim>\<open>Config.fromfile\<close>
  returns a \<^verbatim>\<open>Config\<close>, so the type check of line 73 passes).  Without \<^verbatim>\<open>--work-dir\<close>,
  \<^verbatim>\<open>osp.abspath(None)\<close> raises \<^verbatim>\<open>TypeError\<close>; an error of \<^verbatim>\<open>mkdir_or_exist\<close> ends the run
  before the flag is created.
\<close>

definition main :: "'w env \<Rightarrow> args \<Rightarrow> config \<Rightarrow> 'w \<Rightarrow> (error + unit) \<times> 'w state" where
  "main env a cfg w =
     (let s0 = (init w)\<lparr>level := nameToLevel (log_level a)\<rparr>
      in case work_dir a of
           None \<Rightarrow> (Inl TypeError, s0)
         | Some wd \<Rightarrow>
             (case mkdir_or_exist env wd (world s0) of
                Inl e \<Rightarrow> (Inl e, s0)
              | Inr w' \<Rightarrow>
                  (let s1 = s0\<lparr>world := w'\<rparr>;
                       (ret_value, s2) = mp_Value 0 s1
                   in and_then (convert_onnx env a cfg wd ret_value)
                        (\<lambda>_. and_then (split_model env cfg wd ret_value)
                           (\<lambda>_. and_then (convert_backend env a cfg wd ret_value)
                              (\<lambda>_. visualize env a cfg ret_value))) s2)))"

subsection \<open>Reading a trace\<close>

datatype kind = Export | Split | Compile | Inference

fun kind_of :: "call \<Rightarrow> kind" where
  "kind_of (Torch2onnx _ _ _ _ _ _ _ _) = Export"
| "kind_of (Extract_model _ _ _ _ _) = Split"
| "kind_of (Onnx2tensorrt _ _ _ _ _ _ _) = Compile"
| "kind_of (Inference_model _ _ _ _ _ _ _ _ _) = Inference"

text \<open>The calls that ran, in order.\<close>

fun calls :: "event list \<Rightarrow> call list" where
  "calls [] = []"
| "calls (Ran c l b x # es) = c # calls es"
| "calls (_ # es) = calls es"

text \<open>The calls after which the flag was not zero.\<close>

fun failed :: "event list \<Rightarrow> call list" where
  "failed [] = []"
| "failed (Ran c l b x # es) = (if x \<noteq> 0 then c # failed es else failed es)"
| "failed (_ # es) = failed es"

text \<open>The shared values that were created: address and initial value.\<close>

fun new_values :: "event list \<Rightarrow> (nat \<times> real) list" where
  "new_values [] = []"
| "new_values (NewValue r v # es) = (r, v) # new_values es"
| "new_values (_ # es) = new_values es"

text \<open>The calls of one kind.\<close>

definition calls_of :: "kind \<Rightarrow> event list \<Rightarrow> call list" where
  "calls_of k tr = filter (\<lambda>c. kind_of c = k) (calls tr)"

subsection \<open>The events of a sequence of steps\<close>

text \<open>
  A step is a name and a call, as given to \<open>create_process\<close>.  These are the events of a step
  that leaves the flag at zero, of a step that leaves it at \<open>x\<close>, and of a sequence of steps
  that all leave it at zero, for a driver at level \<open>lvl\<close>.
\<close>

definition ok_events :: "nat \<Rightarrow> string \<times> call \<Rightarrow> event list" where
  "ok_events lvl st =
     [Log Info (fst st @ '' start.''), Ran (snd st) lvl 0 0, Log Info (fst st @ '' success.'')]"

definition fail_events :: "nat \<Rightarrow> string \<times> call \<Rightarrow> real \<Rightarrow> event list" where
  "fail_events lvl st x =
     [Log Info (fst st @ '' start.''), Ran (snd st) lvl 0 x, Log Error (fst st @ '' failed.'')]"

definition ok_run :: "nat \<Rightarrow> (string \<times> call) list \<Rightarrow> event list" where
  "ok_run lvl steps = concat (map (ok_events lvl) steps)"

text \<open>
  What a stage that runs \<open>steps\<close> one after the other does from a state \<open>s\<close> in which the flag
  \<open>rv\<close> is zero: either every step leaves the flag at zero, and the stage ends with the
  result \<open>res\<close> after the events \<open>fin\<close>; or some step leaves the flag at a non-zero \<open>x\<close>, and
  the stage exits right after the error line of that step, the steps behind it not run.
\<close>

definition stage_run ::
  "nat \<Rightarrow> (string \<times> call) list \<Rightarrow> error + unit \<Rightarrow> event list \<Rightarrow> 'w state \<Rightarrow>
   (error + unit) \<times> 'w state \<Rightarrow> bool" where
  "stage_run rv steps res fin s rs =
     (case rs of (r, s') \<Rightarrow>
        level s' = level s \<and> next_addr s' = next_addr s \<and>
        ((r = res \<and> heap s' rv = 0 \<and> trace s' = trace s @ ok_run (level s) steps @ fin) \<or>
         (\<exists>pre st post x. steps = pre @ st # post \<and> x \<noteq> 0 \<and> r = Inl (SystemExit None) \<and>
            trace s' = trace s @ ok_run (level s) pre @ fail_events (level s) st x)))"

text \<open>The steps of the four stages, as the source builds them.\<close>

definition export_step :: "args \<Rightarrow> string \<Rightarrow> nat \<Rightarrow> string \<Rightarrow> string \<times> call" where
  "export_step a wd rv f =
     (''torch2onnx'',
      Torch2onnx (img a) wd f (deploy_cfg a) (model_cfg a) (checkpoint a) (device a) rv)"

definition split_step :: "string \<Rightarrow> nat \<Rightarrow> string \<Rightarrow> split_param \<Rightarrow> string \<times> call" where
  "split_step wd rv origin sp =
     (''split model '' @ sp_save_file sp @ '' with start: '' @ sp_start sp @ '', end: '' @ sp_end sp,
      Extract_model origin (sp_start sp) (sp_end sp) (osp_join wd (sp_save_file sp)) rv)"

definition trt_step ::
  "args \<Rightarrow> string \<Rightarrow> nat \<Rightarrow> nat \<times> model_param \<times> string \<Rightarrow> string \<times> call" where
  "trt_step a wd rv t =
     (case t of (model_id, model_param, onnx_path) \<Rightarrow>
        (''onnx2tensorrt of '' @ onnx_path,
         Onnx2tensorrt wd (engine_file model_param onnx_path) model_id (deploy_cfg a) onnx_path
           (device a) rv))"

definition trt_path :: "string \<Rightarrow> nat \<times> model_param \<times> string \<Rightarrow> string" where
  "trt_path wd t =
     (case t of (model_id, model_param, onnx_path) \<Rightarrow>
        osp_join wd (engine_file model_param onnx_path))"

definition viz_steps ::
  "args \<Rightarrow> config \<Rightarrow> nat \<Rightarrow> string \<Rightarrow> string list \<Rightarrow> (string \<times> call) list" where
  "viz_steps a cfg rv cb files =
     [(''visualize '' @ get_backend cfg @ '' model'',
       Inference_model (model_cfg a) files (img a) cb (get_backend cfg) (device a)
         (''output_'' @ get_backend cfg @ ''.jpg'') (show_result a) rv),
      (''visualize pytorch model'',
       Inference_model (model_cfg a) [checkpoint a] (img a) cb ''pytorch'' (device a)
         ''output_pytorch.jpg'' (show_result a) rv)]"

text \<open>
  The steps of each stage, the result with which the stage ends when all of them leave the
  flag at zero, and the value of the list variable after it, from the configuration and the
  list variable before it.
\<close>

definition export_steps :: "args \<Rightarrow> config \<Rightarrow> string \<Rightarrow> nat \<Rightarrow> (string \<times> call) list" where
  "export_steps a cfg wd rv =
     (case pytorch2onnx cfg of Some (Some f) \<Rightarrow> [export_step a wd rv f] | _ \<Rightarrow> [])"

definition export_res :: "config \<Rightarrow> error + unit" where
  "export_res cfg =
     (case pytorch2onnx cfg of
        None \<Rightarrow> Inl (KeyError ''pytorch2onnx'')
      | Some None \<Rightarrow> Inl (KeyError ''save_file'')
      | Some (Some f) \<Rightarrow> Inr ())"

definition exported_files :: "config \<Rightarrow> string \<Rightarrow> string list" where
  "exported_files cfg wd =
     (case pytorch2onnx cfg of Some (Some f) \<Rightarrow> [osp_join wd f] | _ \<Rightarrow> [])"

definition split_steps :: "config \<Rightarrow> string \<Rightarrow> nat \<Rightarrow> string list \<Rightarrow> (string \<times> call) list" where
  "split_steps cfg wd rv files =
     (if apply_marks cfg = Some True
      then case split_params cfg of
             None \<Rightarrow> []
           | Some sps \<Rightarrow>
               (case files of [] \<Rightarrow> [] | origin # _ \<Rightarrow> map (split_step wd rv origin) sps)
      else [])"

definition split_res :: "config \<Rightarrow> string list \<Rightarrow> error + unit" where
  "split_res cfg files =
     (if apply_marks cfg = Some True
      then case split_params cfg of
             None \<Rightarrow> Inl AssertionError
           | Some sps \<Rightarrow> (case files of [] \<Rightarrow> Inl IndexError | _ # _ \<Rightarrow> Inr ())
      else Inr ())"

definition split_files :: "config \<Rightarrow> string \<Rightarrow> string list \<Rightarrow> string list" where
  "split_files cfg wd files =
     (if apply_marks cfg = Some True
      then case split_params cfg of
             None \<Rightarrow> files
           | Some sps \<Rightarrow> map (\<lambda>sp. osp_join wd (sp_save_file sp)) sps
      else files)"

definition backend_steps ::
  "'w env \<Rightarrow> args \<Rightarrow> config \<Rightarrow> string \<Rightarrow> nat \<Rightarrow> string list \<Rightarrow> (string \<times> call) list" where
  "backend_steps env a cfg wd rv files =
     (if get_backend cfg = ''tensorrt''
      then case tensorrt_params cfg of
             None \<Rightarrow> []
           | Some tp \<Rightarrow>
               if length (get_model_params tp) \<noteq> length files \<or> import_tensorrt env \<noteq> None
               then []
               else map (trt_step a wd rv) (trt_triples (get_model_params tp) files)
      else [])"

definition backend_res :: "'w env \<Rightarrow> config \<Rightarrow> string list \<Rightarrow> error + unit" where
  "backend_res env cfg files =
     (if get_backend cfg = ''tensorrt''
      then case tensorrt_params cfg of
             None \<Rightarrow> Inl AssertionError
           | Some tp \<Rightarrow>
               if length (get_model_params tp) \<noteq> length files then Inl AssertionError
               else (case import_tensorrt env of Some e \<Rightarrow> Inl e | None \<Rightarrow> Inr ())
      else Inr ())"

definition backend_paths :: "config \<Rightarrow> string \<Rightarrow> string list \<Rightarrow> string list" where
  "backend_paths cfg wd files =
     (if get_backend cfg = ''tensorrt''
      then case tensorrt_params cfg of
             None \<Rightarrow> files
           | Some tp \<Rightarrow> map (trt_path wd) (trt_triples (get_model_params tp) files)
      else files)"

definition visualize_steps ::
  "args \<Rightarrow> config \<Rightarrow> nat \<Rightarrow> string list \<Rightarrow> (string \<times> call) list" where
  "visualize_steps a cfg rv files =
     (case codebase cfg of None \<Rightarrow> [] | Some cb \<Rightarrow> viz_steps a cfg rv cb files)"

definition visualize_res :: "config \<Rightarrow> error + unit" where
  "visualize_res cfg = (case codebase cfg of None \<Rightarrow> Inl (KeyError ''codebase'') | Some cb \<Rightarrow> Inr ())"

definition visualize_fin :: "config \<Rightarrow> event list" where
  "visualize_fin cfg =
     (case codebase cfg of None \<Rightarrow> [] | Some cb \<Rightarrow> [Log Info ''All process success.''])"

text \<open>
  The state in which \<open>main\<close> starts its first step, \<open>w'\<close> being the world with the work
  directory made: the flag exists and is zero.
\<close>

definition started :: "args \<Rightarrow> 'w \<Rightarrow> 'w state" where
  "started a w' =
     \<lparr>world = w', heap = (\<lambda>_. 0), next_addr = 1,
      level = nameToLevel (log_level a), onnx_files = [], backend_files = [],
      trace = [NewValue 0 0]\<rparr>"


subsection \<open>Concrete runs\<close>

text \<open>
  Workers that touch nothing but the flag they were given: they leave it at 1 after a call
  that satisfies \<open>P\<close>, and at 0 after any other call.  The work directory can be made and
  the tensorrt module imported.
\<close>

definition env_failing :: "(call \<Rightarrow> bool) \<Rightarrow> unit env" where
  "env_failing P =
     \<lparr>collab = (\<lambda>c l (w, h). (w, h(ret_value_of c := (if P c then 1 else 0)))),
      mkdir_or_exist = (\<lambda>_ w. Inr w), import_tensorrt = None\<rparr>"

definition args0 :: args where
  "args0 = \<lparr>deploy_cfg = ''deploy.py'', model_cfg = ''model.py'', checkpoint = ''ckpt.pth'',
            img = ''demo.jpg'', work_dir = Some ''work'', device = ''cpu'', log_level = DEBUG,
            show_result = False\<rparr>"

definition cfg_default :: config where
  "cfg_default = \<lparr>pytorch2onnx = Some (Some ''end2end.onnx''), apply_marks = None,
                  split_params = None, backend = None, tensorrt_params = None,
                  codebase = Some ''mmdet''\<rparr>"

definition cfg_split_trt :: config where
  "cfg_split_trt =
     \<lparr>pytorch2onnx = Some (Some ''end2end.onnx''), apply_marks = Some True,
      split_params = Some
        [\<lparr>sp_save_file = ''head.onnx'', sp_start = ''input'', sp_end = ''neck''\<rparr>,
         \<lparr>sp_save_file = ''tail.onnx'', sp_start = ''neck'', sp_end = ''output''\<rparr>],
      backend = Some ''tensorrt'',
      tensorrt_params = Some \<lparr>model_params = Some
        [\<lparr>mp_save_file = None\<rparr>, \<lparr>mp_save_file = Some ''tail_fp16.engine''\<rparr>]\<rparr>,
      codebase = Some ''mmdet''\<rparr>"

definition cfg_no_split :: config where
  "cfg_no_split = cfg_default\<lparr>apply_marks := Some True\<rparr>"

definition cfg_pytorch :: config where
  "cfg_pytorch = cfg_default\<lparr>backend := Some ''pytorch''\<rparr>"

definition cfg_mismatch :: config where
  "cfg_mismatch =
     cfg_split_trt\<lparr>tensorrt_params := Some \<lparr>model_params = Some [\<lparr>mp_save_file = None\<rparr>]\<rparr>\<rparr>"


section \<open>How the stages run\<close>


lemma calls_append [simp]: "calls (xs @ ys) = calls xs @ calls ys"
  by (induction xs rule: calls.induct) simp_all

lemma failed_append [simp]: "failed (xs @ ys) = failed xs @ failed ys"
  by (induction xs rule: failed.induct) simp_all

lemma ok_run_Nil [simp]: "ok_run lvl [] = []"
  by (simp add: ok_run_def)

lemma ok_run_Cons: "ok_run lvl (st # steps) = ok_events lvl st @ ok_run lvl steps"
  by (simp add: ok_run_def)

lemma ok_run_append: "ok_run lvl (xs @ ys) = ok_run lvl xs @ ok_run lvl ys"
  by (simp add: ok_run_def)

lemma calls_ok_run [simp]: "calls (ok_run lvl steps) = map snd steps"
  by (induction steps) (simp_all add: ok_run_Cons ok_events_def)

lemma failed_ok_run [simp]: "failed (ok_run lvl steps) = []"
  by (induction steps) (simp_all add: ok_run_Cons ok_events_def)

lemma calls_fail_events [simp]: "calls (fail_events lvl st x) = [snd st]"
  by (simp add: fail_events_def)

lemma failed_fail_events [simp]: "x \<noteq> 0 \<Longrightarrow> failed (fail_events lvl st x) = [snd st]"
  by (simp add: fail_events_def)

lemma create_process_locals [simp]:
  "onnx_files (snd (create_process env name c rvo s)) = onnx_files s"
  "backend_files (snd (create_process env name c rvo s)) = backend_files s"
  by (simp_all add: create_process_def target_wrapper_def run_target_def log_def Let_def
      split: prod.splits option.splits)

lemma create_process_run:
  assumes "heap s rv = 0" "ret_value_of c = rv"
  shows "stage_run rv [(name, c)] (Inr ()) [] s (create_process env name c (Some rv) s)"
proof -
  obtain w' h' where wh: "collab env c (level s) (world s, heap s) = (w', h')"
    by (cases "collab env c (level s) (world s, heap s)")
  show ?thesis
  proof (cases "h' rv = 0")
    case True
    then show ?thesis using assms wh
      by (simp add: stage_run_def create_process_def target_wrapper_def run_target_def log_def
          spawned_def ok_run_Cons ok_events_def)
  next
    case False
    have "[(name, c)] = [] @ (name, c) # []" by simp
    then show ?thesis using False assms wh
      apply (simp add: stage_run_def create_process_def target_wrapper_def run_target_def log_def
          spawned_def fail_events_def)
      apply (rule exI [of _ "[]"]) 
      apply simp
      done
  qed
qed


lemma create_process_step:
  assumes "heap s rv = 0" "ret_value_of (snd st) = rv"
  shows "stage_run rv [st] (Inr ()) [] s (create_process env (fst st) (snd st) (Some rv) s)"
  using create_process_run [OF assms, of "fst st" env] by simp

lemma stage_run_append:
  assumes "stage_run rv xs (Inr ()) [] s (Inr (), s1)" and "stage_run rv ys res fin s1' rs"
    and "level s1' = level s1" "next_addr s1' = next_addr s1" "trace s1' = trace s1"
  shows "stage_run rv (xs @ ys) res fin s rs"
proof -
  obtain r s2 where rs: "rs = (r, s2)" by (cases rs)
  from assms(1) have a: "level s1 = level s" "next_addr s1 = next_addr s"
    "trace s1 = trace s @ ok_run (level s) xs"
    by (simp_all add: stage_run_def)
  from assms(2) rs have b: "level s2 = level s1'" "next_addr s2 = next_addr s1'"
    by (simp_all add: stage_run_def)
  from assms(2) rs consider
    (ok) "r = res" "heap s2 rv = 0" "trace s2 = trace s1' @ ok_run (level s1') ys @ fin"
    | (bad) pre st post x where "ys = pre @ st # post" "x \<noteq> 0" "r = Inl (SystemExit None)"
      "trace s2 = trace s1' @ ok_run (level s1') pre @ fail_events (level s1') st x"
    by (auto simp: stage_run_def)
  then show ?thesis
  proof cases
    case ok
    then show ?thesis using a b assms(3-5) rs
      by (simp add: stage_run_def ok_run_append)
  next
    case bad
    have "xs @ ys = (xs @ pre) @ st # post" using bad(1) by simp
    moreover have "trace s2 = trace s @ ok_run (level s) (xs @ pre) @ fail_events (level s) st x"
      using bad(4) a assms(3-5) by (simp add: ok_run_append)
    ultimately show ?thesis using bad(2,3) a b assms(3-5) rs
      unfolding stage_run_def by (simp only: prod.case) blast
  qed
qed

lemma stage_run_fail:
  assumes "stage_run rv xs (Inr ()) [] s (Inl e, s1)"
  shows "stage_run rv (xs @ ys) res fin s (Inl e, s1)"
proof -
  from assms obtain pre st post x where
    h: "xs = pre @ st # post" "x \<noteq> 0" "e = SystemExit None"
    "trace s1 = trace s @ ok_run (level s) pre @ fail_events (level s) st x"
    "level s1 = level s" "next_addr s1 = next_addr s"
    by (auto simp: stage_run_def)
  have "xs @ ys = pre @ st # (post @ ys)" using h(1) by simp
  then show ?thesis using h(2-6)
    unfolding stage_run_def by (simp only: prod.case) blast
qed

lemma split_loop_Cons:
  "split_loop env wd rv origin (sp # sps) s =
     (case create_process env (fst (split_step wd rv origin sp)) (snd (split_step wd rv origin sp))
             (Some rv) s of
        (Inl e, s') \<Rightarrow> (Inl e, s')
      | (Inr _, s') \<Rightarrow>
          split_loop env wd rv origin sps
            (s'\<lparr>onnx_files := onnx_files s' @ [osp_join wd (sp_save_file sp)]\<rparr>))"
  by (simp add: split_step_def Let_def)

lemma split_loop_run:
  "heap s rv = 0 \<Longrightarrow>
   stage_run rv (map (split_step wd rv origin) sps) (Inr ()) [] s (split_loop env wd rv origin sps s)"
proof (induction sps arbitrary: s)
  case Nil
  then show ?case by (simp add: stage_run_def)
next
  case (Cons sp sps)
  let ?st = "split_step wd rv origin sp"
  let ?cp = "create_process env (fst ?st) (snd ?st) (Some rv) s"
  have cp: "stage_run rv [?st] (Inr ()) [] s ?cp"
    by (rule create_process_step [OF Cons.prems]) (simp add: split_step_def)
  obtain r1 s1 where r1: "?cp = (r1, s1)" by (cases ?cp)
  show ?case
  proof (cases r1)
    case (Inl e)
    have "stage_run rv ([?st] @ map (split_step wd rv origin) sps) (Inr ()) [] s (Inl e, s1)"
      using cp r1 Inl by (intro stage_run_fail) simp
    then show ?thesis using r1 Inl
      by (simp add: split_loop_Cons del: split_loop.simps)
  next
    case (Inr u)
    let ?s1' = "s1\<lparr>onnx_files := onnx_files s1 @ [osp_join wd (sp_save_file sp)]\<rparr>"
    have h0: "heap s1 rv = 0" using cp r1 Inr by (auto simp: stage_run_def)
    have "stage_run rv (map (split_step wd rv origin) sps) (Inr ()) [] ?s1'
            (split_loop env wd rv origin sps ?s1')"
      by (rule Cons.IH) (simp add: h0)
    then have "stage_run rv ([?st] @ map (split_step wd rv origin) sps) (Inr ()) [] s
            (split_loop env wd rv origin sps ?s1')"
      using cp r1 Inr by (intro stage_run_append [where ?s1.0 = s1 and ?s1'.0 = ?s1']) simp_all
    then show ?thesis using r1 Inr
      by (simp add: split_loop_Cons del: split_loop.simps)
  qed
qed


lemma split_loop_files:
  "fst (split_loop env wd rv origin sps s) = Inr () \<Longrightarrow>
   onnx_files (snd (split_loop env wd rv origin sps s)) =
     onnx_files s @ map (\<lambda>sp. osp_join wd (sp_save_file sp)) sps"
proof (induction sps arbitrary: s)
  case Nil
  then show ?case by simp
next
  case (Cons sp sps)
  let ?cp = "create_process env (fst (split_step wd rv origin sp))
    (snd (split_step wd rv origin sp)) (Some rv) s"
  obtain r1 s1 where r1: "?cp = (r1, s1)" by (cases ?cp)
  have f: "onnx_files s1 = onnx_files s"
    using create_process_locals(1) [of env "fst (split_step wd rv origin sp)"
        "snd (split_step wd rv origin sp)" "Some rv" s] r1 by simp
  show ?case
  proof (cases r1)
    case (Inl e)
    then show ?thesis using Cons.prems r1
      by (simp add: split_loop_Cons del: split_loop.simps)
  next
    case (Inr u)
    then show ?thesis using Cons.prems r1 f
      Cons.IH [of "s1\<lparr>onnx_files := onnx_files s1 @ [osp_join wd (sp_save_file sp)]\<rparr>"]
      by (simp add: split_loop_Cons del: split_loop.simps)
  qed
qed

lemma trt_loop_Cons:
  "trt_loop env a wd rv (t # ts) s =
     (case create_process env (fst (trt_step a wd rv t)) (snd (trt_step a wd rv t)) (Some rv) s of
        (Inl e, s') \<Rightarrow> (Inl e, s')
      | (Inr _, s') \<Rightarrow>
          trt_loop env a wd rv ts (s'\<lparr>backend_files := backend_files s' @ [trt_path wd t]\<rparr>))"
  by (cases t) (simp add: trt_step_def trt_path_def Let_def split: prod.split sum.split)

lemma trt_loop_run:
  "heap s rv = 0 \<Longrightarrow>
   stage_run rv (map (trt_step a wd rv) ts) (Inr ()) [] s (trt_loop env a wd rv ts s)"
proof (induction ts arbitrary: s)
  case Nil
  then show ?case by (simp add: stage_run_def)
next
  case (Cons t ts)
  let ?st = "trt_step a wd rv t"
  let ?cp = "create_process env (fst ?st) (snd ?st) (Some rv) s"
  have cp: "stage_run rv [?st] (Inr ()) [] s ?cp"
    by (rule create_process_step [OF Cons.prems]) (simp add: trt_step_def split: prod.splits)
  obtain r1 s1 where r1: "?cp = (r1, s1)" by (cases ?cp)
  show ?case
  proof (cases r1)
    case (Inl e)
    have "stage_run rv ([?st] @ map (trt_step a wd rv) ts) (Inr ()) [] s (Inl e, s1)"
      using cp r1 Inl by (intro stage_run_fail) simp
    then show ?thesis using r1 Inl
      by (simp add: trt_loop_Cons del: trt_loop.simps)
  next
    case (Inr u)
    let ?s1' = "s1\<lparr>backend_files := backend_files s1 @ [trt_path wd t]\<rparr>"
    have h0: "heap s1 rv = 0" using cp r1 Inr by (auto simp: stage_run_def)
    have "stage_run rv (map (trt_step a wd rv) ts) (Inr ()) [] ?s1' (trt_loop env a wd rv ts ?s1')"
      by (rule Cons.IH) (simp add: h0)
    then have "stage_run rv ([?st] @ map (trt_step a wd rv) ts) (Inr ()) [] s
            (trt_loop env a wd rv ts ?s1')"
      using cp r1 Inr by (intro stage_run_append [where ?s1.0 = s1 and ?s1'.0 = ?s1']) simp_all
    then show ?thesis using r1 Inr
      by (simp add: trt_loop_Cons del: trt_loop.simps)
  qed
qed

lemma trt_loop_files:
  "onnx_files (snd (trt_loop env a wd rv ts s)) = onnx_files s \<and>
   (fst (trt_loop env a wd rv ts s) = Inr () \<longrightarrow>
      backend_files (snd (trt_loop env a wd rv ts s)) = backend_files s @ map (trt_path wd) ts)"
proof (induction ts arbitrary: s)
  case Nil
  then show ?case by simp
next
  case (Cons t ts)
  let ?cp = "create_process env (fst (trt_step a wd rv t)) (snd (trt_step a wd rv t)) (Some rv) s"
  obtain r1 s1 where r1: "?cp = (r1, s1)" by (cases ?cp)
  have f: "onnx_files s1 = onnx_files s" "backend_files s1 = backend_files s"
    using create_process_locals [of env "fst (trt_step a wd rv t)"
        "snd (trt_step a wd rv t)" "Some rv" s] r1 by simp_all
  show ?case
  proof (cases r1)
    case (Inl e)
    then show ?thesis using r1 f
      by (simp add: trt_loop_Cons del: trt_loop.simps)
  next
    case (Inr u)
    then show ?thesis using r1 f
      Cons.IH [of "s1\<lparr>backend_files := backend_files s1 @ [trt_path wd t]\<rparr>"]
      by (simp add: trt_loop_Cons del: trt_loop.simps)
  qed
qed


lemma stage_run_locals:
  "stage_run rv steps res fin (s\<lparr>onnx_files := xs\<rparr>) rs = stage_run rv steps res fin s rs"
  "stage_run rv steps res fin (s\<lparr>backend_files := xs\<rparr>) rs = stage_run rv steps res fin s rs"
  by (simp_all add: stage_run_def)

lemma stage_run_stop: "heap s rv = 0 \<Longrightarrow> stage_run rv [] res [] s (res, s)"
  by (simp add: stage_run_def)

lemma and_then_run:
  assumes "stage_run rv xs (Inr ()) [] s (m s)"
    and "\<And>s1. m s = (Inr (), s1) \<Longrightarrow> stage_run rv ys res fin s1 (f () s1)"
  shows "stage_run rv (xs @ ys) res fin s (and_then m f s)"
proof -
  obtain r1 s1 where r1: "m s = (r1, s1)" by (cases "m s")
  show ?thesis
  proof (cases r1)
    case (Inl e)
    then show ?thesis using assms(1) r1 stage_run_fail [of rv xs s e s1 ys res fin]
      by (simp add: and_then_def)
  next
    case (Inr u)
    then show ?thesis
      using assms r1 stage_run_append [of rv xs s s1 ys res fin s1 "f () s1"]
      by (simp add: and_then_def)
  qed
qed

lemma convert_onnx_run:
  assumes "heap s rv = 0" "pytorch2onnx cfg = Some (Some f)"
  shows "stage_run rv [export_step a wd rv f] (Inr ()) [] s (convert_onnx env a cfg wd rv s)"
proof -
  have "stage_run rv ([export_step a wd rv f] @ []) (Inr ()) [] s
     (and_then (create_process env (fst (export_step a wd rv f)) (snd (export_step a wd rv f))
          (Some rv))
        (\<lambda>_ s'. (Inr (), s'\<lparr>onnx_files := [osp_join wd f]\<rparr>)) s)"
  proof (rule and_then_run)
    show "stage_run rv [export_step a wd rv f] (Inr ()) [] s
       (create_process env (fst (export_step a wd rv f)) (snd (export_step a wd rv f)) (Some rv) s)"
      by (rule create_process_step [OF assms(1)]) (simp add: export_step_def)
  next
    fix s1
    assume "create_process env (fst (export_step a wd rv f)) (snd (export_step a wd rv f))
      (Some rv) s = (Inr (), s1)"
    with create_process_step [OF assms(1), of "export_step a wd rv f" env]
    have "heap s1 rv = 0" by (auto simp: stage_run_def export_step_def)
    then show "stage_run rv [] (Inr ()) [] s1 (Inr (), s1\<lparr>onnx_files := [osp_join wd f]\<rparr>)"
      by (simp add: stage_run_def)
  qed
  then show ?thesis using assms(2)
    by (simp add: convert_onnx_def export_step_def)
qed

lemma convert_onnx_files:
  "convert_onnx env a cfg wd rv s = (Inr (), s1) \<Longrightarrow>
   \<exists>f. pytorch2onnx cfg = Some (Some f) \<and> onnx_files s1 = [osp_join wd f]"
  by (auto simp: convert_onnx_def and_then_def split: option.splits prod.splits sum.splits)

lemma convert_onnx_error:
  "pytorch2onnx cfg = None \<Longrightarrow>
     convert_onnx env a cfg wd rv s = (Inl (KeyError ''pytorch2onnx''), s)"
  "pytorch2onnx cfg = Some None \<Longrightarrow>
     convert_onnx env a cfg wd rv s = (Inl (KeyError ''save_file''), s)"
  by (simp_all add: convert_onnx_def)

lemma visualize_run:
  assumes "heap s rv = 0" "codebase cfg = Some cb"
  shows "stage_run rv (viz_steps a cfg rv cb (backend_files s)) (Inr ())
           [Log Info ''All process success.''] s (visualize env a cfg rv s)"
proof -
  let ?v1 = "viz_steps a cfg rv cb (backend_files s) ! 0"
  let ?v2 = "viz_steps a cfg rv cb (backend_files s) ! 1"
  have r: "ret_value_of (snd ?v1) = rv" "ret_value_of (snd ?v2) = rv"
    by (simp_all add: viz_steps_def)
  have "stage_run rv ([?v1] @ [?v2] @ []) (Inr ()) [Log Info ''All process success.''] s
     (and_then (create_process env (fst ?v1) (snd ?v1) (Some rv))
        (\<lambda>_. and_then (create_process env (fst ?v2) (snd ?v2) (Some rv))
            (\<lambda>_ s'. (Inr (), log Info ''All process success.'' s'))) s)"
  proof (rule and_then_run)
    show "stage_run rv [?v1] (Inr ()) [] s (create_process env (fst ?v1) (snd ?v1) (Some rv) s)"
      by (rule create_process_step [OF assms(1) r(1)])
  next
    fix s1
    assume "create_process env (fst ?v1) (snd ?v1) (Some rv) s = (Inr (), s1)"
    with create_process_step [OF assms(1) r(1), of env]
    have h1: "heap s1 rv = 0" by (auto simp: stage_run_def)
    show "stage_run rv ([?v2] @ []) (Inr ()) [Log Info ''All process success.''] s1
      (and_then (create_process env (fst ?v2) (snd ?v2) (Some rv))
            (\<lambda>_ s'. (Inr (), log Info ''All process success.'' s')) s1)"
    proof (rule and_then_run)
      show "stage_run rv [?v2] (Inr ()) [] s1
         (create_process env (fst ?v2) (snd ?v2) (Some rv) s1)"
        by (rule create_process_step [OF h1 r(2)])
    next
      fix s2
      assume "create_process env (fst ?v2) (snd ?v2) (Some rv) s1 = (Inr (), s2)"
      with create_process_step [OF h1 r(2), of env]
      have "heap s2 rv = 0" by (auto simp: stage_run_def)
      then show "stage_run rv [] (Inr ()) [Log Info ''All process success.''] s2
         (Inr (), log Info ''All process success.'' s2)"
        by (simp add: stage_run_def log_def)
    qed
  qed
  then show ?thesis using assms(2)
    by (simp add: visualize_def viz_steps_def)
qed

lemma create_process_locals_pair:
  "create_process env n c rvo s0 = (r1, s1) \<Longrightarrow>
   onnx_files s1 = onnx_files s0 \<and> backend_files s1 = backend_files s0"
  using create_process_locals [of env n c rvo s0] by simp

lemma visualize_locals:
  "onnx_files (snd (visualize env a cfg rv s)) = onnx_files s"
  "backend_files (snd (visualize env a cfg rv s)) = backend_files s"
  by (auto simp: visualize_def and_then_def log_def split: option.splits prod.splits sum.splits
      dest!: create_process_locals_pair)


lemma split_model_skip:
  "apply_marks cfg \<noteq> Some True \<Longrightarrow> split_model env cfg wd rv s = (Inr (), s)"
  by (cases "apply_marks cfg") (auto simp: split_model_def)

lemma split_model_assert:
  "apply_marks cfg = Some True \<Longrightarrow> split_params cfg = None \<Longrightarrow>
   split_model env cfg wd rv s = (Inl AssertionError, s)"
  by (simp add: split_model_def)

lemma split_model_loop:
  "apply_marks cfg = Some True \<Longrightarrow> split_params cfg = Some sps \<Longrightarrow>
   onnx_files s = origin # rest \<Longrightarrow>
   split_model env cfg wd rv s = split_loop env wd rv origin sps (s\<lparr>onnx_files := []\<rparr>)"
  by (simp add: split_model_def)

lemma split_model_run:
  assumes "heap s rv = 0" "apply_marks cfg = Some True" "split_params cfg = Some sps"
    "onnx_files s = origin # rest"
  shows "stage_run rv (map (split_step wd rv origin) sps) (Inr ()) [] s
           (split_model env cfg wd rv s)"
    and "fst (split_model env cfg wd rv s) = Inr () \<Longrightarrow>
         onnx_files (snd (split_model env cfg wd rv s)) =
           map (\<lambda>sp. osp_join wd (sp_save_file sp)) sps"
proof -
  have "stage_run rv (map (split_step wd rv origin) sps) (Inr ()) [] (s\<lparr>onnx_files := []\<rparr>)
          (split_loop env wd rv origin sps (s\<lparr>onnx_files := []\<rparr>))"
    by (rule split_loop_run) (simp add: assms(1))
  then show "stage_run rv (map (split_step wd rv origin) sps) (Inr ()) [] s
           (split_model env cfg wd rv s)"
    by (simp add: split_model_loop [OF assms(2-4)] stage_run_locals)
  show "fst (split_model env cfg wd rv s) = Inr () \<Longrightarrow>
         onnx_files (snd (split_model env cfg wd rv s)) =
           map (\<lambda>sp. osp_join wd (sp_save_file sp)) sps"
    using split_loop_files [of env wd rv origin sps "s\<lparr>onnx_files := []\<rparr>"]
    by (simp add: split_model_loop [OF assms(2-4)])
qed

lemma convert_backend_skip:
  "get_backend cfg \<noteq> ''tensorrt'' \<Longrightarrow>
   convert_backend env a cfg wd rv s = (Inr (), s\<lparr>backend_files := onnx_files s\<rparr>)"
  by (simp add: convert_backend_def)

lemma convert_backend_assert:
  "get_backend cfg = ''tensorrt'' \<Longrightarrow>
   tensorrt_params cfg = None \<or>
   (\<exists>tp. tensorrt_params cfg = Some tp \<and> length (get_model_params tp) \<noteq> length (onnx_files s)) \<Longrightarrow>
   convert_backend env a cfg wd rv s = (Inl AssertionError, s\<lparr>backend_files := onnx_files s\<rparr>)"
  by (auto simp: convert_backend_def)

lemma convert_backend_import:
  "get_backend cfg = ''tensorrt'' \<Longrightarrow> tensorrt_params cfg = Some tp \<Longrightarrow>
   length (get_model_params tp) = length (onnx_files s) \<Longrightarrow> import_tensorrt env = Some e \<Longrightarrow>
   convert_backend env a cfg wd rv s = (Inl e, s\<lparr>backend_files := onnx_files s\<rparr>)"
  by (simp add: convert_backend_def)

lemma convert_backend_loop:
  "get_backend cfg = ''tensorrt'' \<Longrightarrow> tensorrt_params cfg = Some tp \<Longrightarrow>
   length (get_model_params tp) = length (onnx_files s) \<Longrightarrow> import_tensorrt env = None \<Longrightarrow>
   convert_backend env a cfg wd rv s =
     trt_loop env a wd rv (trt_triples (get_model_params tp) (onnx_files s))
       (s\<lparr>backend_files := []\<rparr>)"
  by (simp add: convert_backend_def)

lemma convert_backend_onnx_files:
  "onnx_files (snd (convert_backend env a cfg wd rv s)) = onnx_files s"
  by (simp add: convert_backend_def trt_loop_files Let_def split: option.splits)

lemma convert_backend_run:
  assumes "heap s rv = 0" "get_backend cfg = ''tensorrt''" "tensorrt_params cfg = Some tp"
    "length (get_model_params tp) = length (onnx_files s)" "import_tensorrt env = None"
  shows "stage_run rv (map (trt_step a wd rv) (trt_triples (get_model_params tp) (onnx_files s)))
           (Inr ()) [] s (convert_backend env a cfg wd rv s)"
    and "fst (convert_backend env a cfg wd rv s) = Inr () \<Longrightarrow>
         backend_files (snd (convert_backend env a cfg wd rv s)) =
           map (trt_path wd) (trt_triples (get_model_params tp) (onnx_files s))"
proof -
  let ?ts = "trt_triples (get_model_params tp) (onnx_files s)"
  have "stage_run rv (map (trt_step a wd rv) ?ts) (Inr ()) [] (s\<lparr>backend_files := []\<rparr>)
          (trt_loop env a wd rv ?ts (s\<lparr>backend_files := []\<rparr>))"
    by (rule trt_loop_run) (simp add: assms(1))
  then show "stage_run rv (map (trt_step a wd rv) ?ts) (Inr ()) [] s
           (convert_backend env a cfg wd rv s)"
    by (simp add: convert_backend_loop [OF assms(2-5)] stage_run_locals)
  show "fst (convert_backend env a cfg wd rv s) = Inr () \<Longrightarrow>
         backend_files (snd (convert_backend env a cfg wd rv s)) = map (trt_path wd) ?ts"
    using trt_loop_files [of env a wd rv ?ts "s\<lparr>backend_files := []\<rparr>"]
    by (simp add: convert_backend_loop [OF assms(2-5)])
qed

lemma convert_onnx_stage:
  assumes "heap s rv = 0"
  shows "stage_run rv (export_steps a cfg wd rv) (export_res cfg) [] s
           (convert_onnx env a cfg wd rv s)"
proof (cases "pytorch2onnx cfg")
  case None
  then show ?thesis using assms
    by (simp add: export_steps_def export_res_def convert_onnx_error stage_run_stop)
next
  case (Some o1)
  show ?thesis
  proof (cases o1)
    case None
    then show ?thesis using assms Some
      by (simp add: export_steps_def export_res_def convert_onnx_error stage_run_stop)
  next
    case (Some f)
    then show ?thesis using assms \<open>pytorch2onnx cfg = Some o1\<close>
        convert_onnx_run [of s rv cfg f a wd env]
      by (simp add: export_steps_def export_res_def)
  qed
qed

lemma convert_onnx_stage_files:
  "convert_onnx env a cfg wd rv s = (Inr (), s1) \<Longrightarrow> onnx_files s1 = exported_files cfg wd"
  using convert_onnx_files [of env a cfg wd rv s s1] by (auto simp: exported_files_def)

lemma split_model_stage:
  assumes "heap s rv = 0"
  shows "stage_run rv (split_steps cfg wd rv (onnx_files s)) (split_res cfg (onnx_files s)) [] s
           (split_model env cfg wd rv s)"
proof (cases "apply_marks cfg = Some True")
  case False
  then show ?thesis using assms
    by (simp add: split_steps_def split_res_def split_model_skip stage_run_stop)
next
  case True
  show ?thesis
  proof (cases "split_params cfg")
    case None
    then show ?thesis using assms True
      by (simp add: split_steps_def split_res_def split_model_assert stage_run_stop)
  next
    case (Some sps)
    show ?thesis
    proof (cases "onnx_files s")
      case Nil
      then show ?thesis using assms True Some
        by (simp add: split_steps_def split_res_def split_model_def stage_run_stop)
    next
      case (Cons origin rest)
      then show ?thesis using True Some split_model_run(1) [OF assms True Some Cons, of wd env]
        by (simp add: split_steps_def split_res_def)
    qed
  qed
qed

lemma split_model_stage_files:
  assumes "split_model env cfg wd rv s = (Inr (), s1)"
  shows "onnx_files s1 = split_files cfg wd (onnx_files s)"
proof (cases "apply_marks cfg = Some True")
  case False
  then show ?thesis using assms by (simp add: split_model_skip split_files_def)
next
  case True
  show ?thesis
  proof (cases "split_params cfg")
    case None
    then show ?thesis using assms True by (simp add: split_model_assert)
  next
    case (Some sps)
    show ?thesis
    proof (cases "onnx_files s")
      case Nil
      then show ?thesis using assms True Some by (simp add: split_model_def)
    next
      case (Cons origin rest)
      have "heap s rv = 0 \<or> True" by simp
      show ?thesis
        using split_loop_files [of env wd rv origin sps "s\<lparr>onnx_files := []\<rparr>"] assms
        by (simp add: split_model_loop [OF True Some Cons] split_files_def True Some)
    qed
  qed
qed

lemma convert_backend_stage:
  assumes "heap s rv = 0"
  shows "stage_run rv (backend_steps env a cfg wd rv (onnx_files s)) (backend_res env cfg (onnx_files s)) []
           s (convert_backend env a cfg wd rv s)"
proof (cases "get_backend cfg = ''tensorrt''")
  case False
  then show ?thesis using assms
    by (simp add: backend_steps_def backend_res_def convert_backend_skip stage_run_def)
next
  case True
  show ?thesis
  proof (cases "tensorrt_params cfg")
    case None
    then show ?thesis using assms True
      by (simp add: backend_steps_def backend_res_def convert_backend_assert stage_run_def)
  next
    case (Some tp)
    show ?thesis
    proof (cases "length (get_model_params tp) = length (onnx_files s)")
      case False
      then show ?thesis using assms True Some
        by (simp add: backend_steps_def backend_res_def convert_backend_assert stage_run_def)
    next
      case eq: True
      show ?thesis
      proof (cases "import_tensorrt env")
        case None
        then show ?thesis
          using True Some eq convert_backend_run(1) [OF assms True Some eq None, of a wd]
          by (simp add: backend_steps_def backend_res_def)
      next
        case (Some e)
        then show ?thesis using assms True \<open>tensorrt_params cfg = Some tp\<close> eq
          by (simp add: backend_steps_def backend_res_def convert_backend_import stage_run_def)
      qed
    qed
  qed
qed

lemma convert_backend_stage_files:
  assumes "convert_backend env a cfg wd rv s = (Inr (), s1)"
  shows "backend_files s1 = backend_paths cfg wd (onnx_files s)"
proof (cases "get_backend cfg = ''tensorrt''")
  case False
  then show ?thesis using assms by (auto simp: convert_backend_skip backend_paths_def)
next
  case True
  show ?thesis
  proof (cases "tensorrt_params cfg")
    case None
    then show ?thesis using assms True by (simp add: convert_backend_assert)
  next
    case (Some tp)
    show ?thesis
    proof (cases "length (get_model_params tp) = length (onnx_files s)")
      case False
      then show ?thesis using assms True Some by (simp add: convert_backend_assert)
    next
      case eq: True
      show ?thesis
      proof (cases "import_tensorrt env")
        case None
        show ?thesis
          using trt_loop_files [of env a wd rv "trt_triples (get_model_params tp) (onnx_files s)"
              "s\<lparr>backend_files := []\<rparr>"] assms
          by (simp add: convert_backend_loop [OF True Some eq None] backend_paths_def True Some)
      next
        case (Some e)
        then show ?thesis using assms True \<open>tensorrt_params cfg = Some tp\<close> eq
          by (simp add: convert_backend_import)
      qed
    qed
  qed
qed

lemma visualize_stage:
  assumes "heap s rv = 0"
  shows "stage_run rv (visualize_steps a cfg rv (backend_files s)) (visualize_res cfg)
           (visualize_fin cfg) s (visualize env a cfg rv s)"
proof (cases "codebase cfg")
  case None
  then show ?thesis using assms
    by (simp add: visualize_steps_def visualize_res_def visualize_fin_def visualize_def
        stage_run_stop)
next
  case (Some cb)
  then show ?thesis using visualize_run [OF assms Some, of a env]
    by (simp add: visualize_steps_def visualize_res_def visualize_fin_def)
qed

lemma main_mkdir_error:
  "work_dir a = Some wd \<Longrightarrow> mkdir_or_exist env wd w = Inl e \<Longrightarrow>
   main env a cfg w = (Inl e, (init w)\<lparr>level := nameToLevel (log_level a)\<rparr>)"
  by (simp add: main_def init_def)

lemma main_started:
  "work_dir a = Some wd \<Longrightarrow> mkdir_or_exist env wd w = Inr w' \<Longrightarrow>
   main env a cfg w =
     and_then (convert_onnx env a cfg wd 0)
       (\<lambda>_. and_then (split_model env cfg wd 0)
          (\<lambda>_. and_then (convert_backend env a cfg wd 0)
             (\<lambda>_. visualize env a cfg 0))) (started a w')"
  by (simp add: main_def started_def init_def mp_Value_def fun_upd_idem)

lemma main_no_work_dir:
  "work_dir a = None \<Longrightarrow>
   main env a cfg w = (Inl TypeError, (init w)\<lparr>level := nameToLevel (log_level a)\<rparr>)"
  by (simp add: main_def)

lemma started_simps [simp]:
  "heap (started a w') 0 = 0"
  "level (started a w') = nameToLevel (log_level a)"
  "trace (started a w') = [NewValue 0 0]"
  "onnx_files (started a w') = []"
  "next_addr (started a w') = 1"
  by (simp_all add: started_def)

lemma stage_run_heap: "stage_run rv xs res fin s (Inr (), s1) \<Longrightarrow> heap s1 rv = 0"
  by (auto simp: stage_run_def)

lemma stage_run_append_pair:
  assumes "stage_run rv xs (Inr ()) [] s (Inr (), s1)" and "stage_run rv ys res fin s1 rs"
  shows "stage_run rv (xs @ ys) res fin s rs"
  using stage_run_append [OF assms] by simp

lemma main_progress [consumes 3, case_names export split backend visualize]:
  assumes m: "main env a cfg w = (r, s)"
    and wd: "work_dir a = Some wd" "mkdir_or_exist env wd w = Inr w'"
  obtains
    (export) "r \<noteq> Inr ()"
      "stage_run 0 (export_steps a cfg wd 0) (export_res cfg) [] (started a w') (r, s)"
  | (split) "r \<noteq> Inr ()" "export_res cfg = Inr ()"
      "stage_run 0 (export_steps a cfg wd 0 @ split_steps cfg wd 0 (exported_files cfg wd))
         (split_res cfg (exported_files cfg wd)) [] (started a w') (r, s)"
  | (backend) "r \<noteq> Inr ()" "export_res cfg = Inr ()"
      "split_res cfg (exported_files cfg wd) = Inr ()"
      "onnx_files s = split_files cfg wd (exported_files cfg wd)"
      "stage_run 0
         (export_steps a cfg wd 0 @ split_steps cfg wd 0 (exported_files cfg wd) @
          backend_steps env a cfg wd 0 (split_files cfg wd (exported_files cfg wd)))
         (backend_res env cfg (split_files cfg wd (exported_files cfg wd))) []
         (started a w') (r, s)"
  | (visualize) "export_res cfg = Inr ()"
      "split_res cfg (exported_files cfg wd) = Inr ()"
      "backend_res env cfg (split_files cfg wd (exported_files cfg wd)) = Inr ()"
      "onnx_files s = split_files cfg wd (exported_files cfg wd)"
      "backend_files s = backend_paths cfg wd (split_files cfg wd (exported_files cfg wd))"
      "stage_run 0
         (export_steps a cfg wd 0 @ split_steps cfg wd 0 (exported_files cfg wd) @
          backend_steps env a cfg wd 0 (split_files cfg wd (exported_files cfg wd)) @
          visualize_steps a cfg 0
            (backend_paths cfg wd (split_files cfg wd (exported_files cfg wd))))
         (visualize_res cfg) (visualize_fin cfg) (started a w') (r, s)"
proof -
  let ?s0 = "started a w'"
  let ?F1 = "exported_files cfg wd"
  let ?F2 = "split_files cfg wd ?F1"
  let ?B = "backend_paths cfg wd ?F2"
  obtain r1 s1 where c1: "convert_onnx env a cfg wd 0 ?s0 = (r1, s1)"
    by (cases "convert_onnx env a cfg wd 0 ?s0")
  have run1: "stage_run 0 (export_steps a cfg wd 0) (export_res cfg) [] ?s0 (r1, s1)"
    using convert_onnx_stage [of ?s0 0 a cfg wd env] c1 by simp
  show ?thesis
  proof (cases r1)
    case (Inl e)
    then have "(r, s) = (r1, s1)" using m c1 by (simp add: main_started [OF wd] and_then_def)
    then show ?thesis using export run1 Inl by simp
  next
    case Inr1: (Inr u1)
    have resE: "export_res cfg = Inr ()" using run1 Inr1 by (auto simp: stage_run_def)
    have f1: "onnx_files s1 = ?F1" using c1 Inr1 convert_onnx_stage_files by simp
    have h1: "heap s1 0 = 0" using run1 Inr1 by (auto simp: stage_run_def)
    obtain r2 s2 where c2: "split_model env cfg wd 0 s1 = (r2, s2)"
      by (cases "split_model env cfg wd 0 s1")
    have "stage_run 0 (split_steps cfg wd 0 ?F1) (split_res cfg ?F1) [] s1 (r2, s2)"
      using split_model_stage [OF h1, of cfg wd env] c2 f1 by simp
    then have run2: "stage_run 0 (export_steps a cfg wd 0 @ split_steps cfg wd 0 ?F1)
        (split_res cfg ?F1) [] ?s0 (r2, s2)"
      using run1 Inr1 resE by (intro stage_run_append_pair [where ?s1.0 = s1]) simp_all
    show ?thesis
    proof (cases r2)
      case (Inl e)
      then have "(r, s) = (r2, s2)" using m c1 c2 Inr1
        by (simp add: main_started [OF wd] and_then_def)
      then show ?thesis using split run2 Inl resE by simp
    next
      case Inr2: (Inr u2)
      have resS: "split_res cfg ?F1 = Inr ()" using run2 Inr2 by (auto simp: stage_run_def)
      have f2: "onnx_files s2 = ?F2" using c2 Inr2 split_model_stage_files f1 by fastforce
      have h2: "heap s2 0 = 0" using run2 Inr2 by (auto simp: stage_run_def)
      obtain r3 s3 where c3: "convert_backend env a cfg wd 0 s2 = (r3, s3)"
        by (cases "convert_backend env a cfg wd 0 s2")
      have f3: "onnx_files s3 = ?F2"
        using convert_backend_onnx_files [of env a cfg wd 0 s2] c3 f2 by simp
      have "stage_run 0 (backend_steps env a cfg wd 0 ?F2) (backend_res env cfg ?F2) [] s2 (r3, s3)"
        using convert_backend_stage [OF h2, where env = env and a = a and cfg = cfg and wd = wd] c3 f2
          by simp
      then have run3: "stage_run 0
          (export_steps a cfg wd 0 @ split_steps cfg wd 0 ?F1 @ backend_steps env a cfg wd 0 ?F2)
          (backend_res env cfg ?F2) [] ?s0 (r3, s3)"
        using stage_run_append_pair [where ?s1.0 = s2, OF _ _] run2 Inr2 resS by fastforce
      show ?thesis
      proof (cases r3)
        case (Inl e)
        then have "(r, s) = (r3, s3)" using m c1 c2 c3 Inr1 Inr2
          by (simp add: main_started [OF wd] and_then_def)
        then show ?thesis using backend run3 Inl resE resS f3 by simp
      next
        case Inr3: (Inr u3)
        have resT: "backend_res env cfg ?F2 = Inr ()" using run3 Inr3 by (auto simp: stage_run_def)
        have b3: "backend_files s3 = ?B"
          using c3 Inr3 convert_backend_stage_files f2 by fastforce
        have h3: "heap s3 0 = 0" using run3 Inr3 by (auto simp: stage_run_def)
        have c4: "visualize env a cfg 0 s3 = (r, s)" using m c1 c2 c3 Inr1 Inr2 Inr3
          by (simp add: main_started [OF wd] and_then_def)
        have f4: "onnx_files s = ?F2" "backend_files s = ?B"
          using visualize_locals [of env a cfg 0 s3] c4 f3 b3 by simp_all
        have "stage_run 0 (visualize_steps a cfg 0 ?B) (visualize_res cfg) (visualize_fin cfg)
                s3 (r, s)"
          using visualize_stage [OF h3, of a cfg env] c4 b3 by simp
        then have "stage_run 0
            ((export_steps a cfg wd 0 @ split_steps cfg wd 0 ?F1 @ backend_steps env a cfg wd 0 ?F2) @
             visualize_steps a cfg 0 ?B)
            (visualize_res cfg) (visualize_fin cfg) ?s0 (r, s)"
          using stage_run_append_pair [where ?s1.0 = s3, OF _ _] run3 Inr3 resT by fastforce
        then show ?thesis using visualize resE resS resT f4 by simp
      qed
    qed
  qed
qed


lemma stage_run_cases [consumes 1, case_names complete exited]:
  assumes "stage_run rv steps res fin s (r, s')"
  obtains
    (complete) "r = res" "heap s' rv = 0" "trace s' = trace s @ ok_run (level s) steps @ fin"
  | (exited) pre st post x where "steps = pre @ st # post" "x \<noteq> 0" "r = Inl (SystemExit None)"
      "trace s' = trace s @ ok_run (level s) pre @ fail_events (level s) st x"
  using assms by (auto simp: stage_run_def)

lemma stage_run_level: "stage_run rv steps res fin s (r, s') \<Longrightarrow> level s' = level s"
  by (simp add: stage_run_def)

lemma split_point:
  assumes "xs @ ys = pre @ st # post" "st \<notin> set xs"
  shows "\<exists>pre'. pre = xs @ pre' \<and> ys = pre' @ st # post"
proof -
  from assms(1) obtain us where
    "(xs = pre @ us \<and> us @ ys = st # post) \<or> (xs @ us = pre \<and> ys = us @ st # post)"
    by (auto simp: append_eq_append_conv2)
  then show ?thesis
  proof
    assume h: "xs = pre @ us \<and> us @ ys = st # post"
    show ?thesis
    proof (cases us)
      case Nil
      then show ?thesis using h by simp
    next
      case (Cons u us')
      then have "st \<in> set xs" using h by simp
      then show ?thesis using assms(2) by simp
    qed
  next
    assume "xs @ us = pre \<and> ys = us @ st # post"
    then show ?thesis by blast
  qed
qed

lemma stage_run_calls:
  assumes run: "stage_run rv (xs @ ys) res fin s (r, s')"
    and fin: "calls fin = []"
    and nofail: "\<forall>c\<in>set (failed (trace s')). c \<notin> snd ` set xs"
    and clean: "failed (trace s) = []"
  shows "\<exists>zs. calls (trace s') = calls (trace s) @ map snd xs @ zs \<and> prefix zs (map snd ys) \<and>
           (r = res \<and> zs = map snd ys \<and> heap s' rv = 0 \<or>
            r = Inl (SystemExit None) \<and> zs \<noteq> [] \<and> failed (trace s') = [last zs])"
  using run
proof (cases rule: stage_run_cases)
  case complete
  have "calls (trace s') = calls (trace s) @ map snd xs @ map snd ys"
    by (simp only: complete(3) calls_append calls_ok_run fin map_append append_Nil2)
  then show ?thesis using complete(1,2)
    by (intro exI [of _ "map snd ys"] conjI disjI1) simp_all
next
  case (exited pre st post x)
  have "failed (trace s') = failed (trace s) @ failed (ok_run (level s) pre) @
      failed (fail_events (level s) st x)"
    by (simp only: exited(4) failed_append)
  then have f: "failed (trace s') = [snd st]"
    using clean failed_fail_events [OF exited(2), of "level s" st]
    by (simp only: failed_ok_run append_Nil)
  moreover have "snd st \<in> set [snd st]" by simp
  ultimately have "snd st \<in> set (failed (trace s'))" by (simp only:)
  then have "snd st \<notin> snd ` set xs" using nofail by blast
  then have nx: "st \<notin> set xs" by (rule contrapos_nn) (rule imageI)
  from split_point [OF exited(1) nx]
  obtain pre' where p: "pre = xs @ pre'" "ys = pre' @ st # post" by (elim exE conjE)
  let ?zs = "map snd pre' @ [snd st]"
  have c: "calls (trace s') = calls (trace s) @ map snd xs @ ?zs"
    by (simp only: exited(4) p(1) calls_append calls_ok_run calls_fail_events map_append
        append_assoc)
  have "map snd ys = ?zs @ map snd post" by (simp add: p(2))
  then have pr: "prefix ?zs (map snd ys)" by (rule prefixI)
  have l: "?zs \<noteq> []" "last ?zs = snd st" by simp_all
  show ?thesis
  proof (intro exI [of _ ?zs] conjI disjI2)
    show "calls (trace s') = calls (trace s) @ map snd xs @ ?zs" by (rule c)
    show "prefix ?zs (map snd ys)" by (rule pr)
    show "r = Inl (SystemExit None)" by (rule exited(3))
    show "?zs \<noteq> []" by (rule l(1))
    show "failed (trace s') = [last ?zs]" using f by (simp only: l(2))
  qed
qed

lemma stage_run_prefix:
  assumes "stage_run rv steps res fin s (r, s')" "calls fin = []"
  shows "prefix (calls (trace s')) (calls (trace s) @ map snd steps)"
  using assms(1)
proof (cases rule: stage_run_cases)
  case complete
  then show ?thesis using assms(2) by simp
next
  case (exited pre st post x)
  then show ?thesis by (simp add: prefix_def)
qed

lemma stage_run_events:
  assumes "stage_run rv steps res fin s (r, s')" "Ran c l b x \<in> set (trace s')"
    "Ran c l b x \<notin> set fin"
  shows "Ran c l b x \<in> set (trace s) \<or> (c \<in> snd ` set steps \<and> l = level s \<and> b = 0)"
  using assms(1)
proof (cases rule: stage_run_cases)
  case complete
  then show ?thesis using assms(2,3) by (auto simp: ok_run_def ok_events_def)
next
  case (exited pre st post x')
  then show ?thesis using assms(2) by (auto simp: ok_run_def ok_events_def fail_events_def)
qed


lemma export_step_facts:
  assumes "st \<in> set (export_steps a cfg wd rv)"
  shows "kind_of (snd st) = Export \<and> ret_value_of (snd st) = rv"
proof (cases "pytorch2onnx cfg")
  case None
  then show ?thesis using assms by (simp add: export_steps_def)
next
  case (Some o1)
  then show ?thesis using assms
    by (cases o1) (simp_all add: export_steps_def export_step_def)
qed

lemma split_step_facts:
  assumes "st \<in> set (split_steps cfg wd rv files)"
  shows "kind_of (snd st) = Split \<and> ret_value_of (snd st) = rv"
proof (cases "apply_marks cfg = Some True")
  case False
  then show ?thesis using assms by (simp add: split_steps_def)
next
  case True
  show ?thesis
  proof (cases "split_params cfg")
    case None
    then show ?thesis using assms True by (simp add: split_steps_def)
  next
    case (Some sps)
    show ?thesis
    proof (cases files)
      case Nil
      then show ?thesis using assms Some True by (simp add: split_steps_def)
    next
      case (Cons origin rest)
      then have "st \<in> split_step wd rv origin ` set sps"
        using assms Some True by (simp add: split_steps_def)
      then obtain sp where "st = split_step wd rv origin sp" by blast
      then show ?thesis by (simp add: split_step_def)
    qed
  qed
qed

lemma trt_step_facts:
  "kind_of (snd (trt_step a wd rv t)) = Compile \<and> ret_value_of (snd (trt_step a wd rv t)) = rv"
  by (cases t) (simp add: trt_step_def)

lemma backend_step_facts:
  assumes "st \<in> set (backend_steps env a cfg wd rv files)"
  shows "kind_of (snd st) = Compile \<and> ret_value_of (snd st) = rv"
proof (cases "get_backend cfg = ''tensorrt''")
  case False
  then show ?thesis using assms by (simp add: backend_steps_def)
next
  case True
  show ?thesis
  proof (cases "tensorrt_params cfg")
    case None
    then show ?thesis using assms True by (simp add: backend_steps_def)
  next
    case (Some tp)
    show ?thesis
    proof (cases "length (get_model_params tp) = length files")
      case False
      then show ?thesis using assms True Some by (simp add: backend_steps_def)
    next
      case eq: True
      then have "st \<in> trt_step a wd rv ` set (trt_triples (get_model_params tp) files)"
        using assms True Some by (simp add: backend_steps_def split: if_splits)
      then obtain t where "st = trt_step a wd rv t" by blast
      then show ?thesis using trt_step_facts [of a wd rv t] by simp
    qed
  qed
qed

lemma visualize_step_facts:
  assumes "st \<in> set (visualize_steps a cfg rv files)"
  shows "kind_of (snd st) = Inference \<and> ret_value_of (snd st) = rv"
proof (cases "codebase cfg")
  case None
  then show ?thesis using assms by (simp add: visualize_steps_def)
next
  case (Some cb)
  then have "st \<in> set (viz_steps a cfg rv cb files)"
    using assms by (simp add: visualize_steps_def)
  then show ?thesis by (auto simp: viz_steps_def)
qed


lemma visualize_fin_events [simp]:
  "calls (visualize_fin cfg) = []" "new_values (visualize_fin cfg) = []"
  "Ran c l b x \<notin> set (visualize_fin cfg)"
  by (simp_all add: visualize_fin_def split: option.splits)

text \<open>How a run of main begins.\<close>

lemma main_cases [case_names no_dir mkdir_error started]:
  obtains
    (no_dir) "work_dir a = None"
      "main env a cfg w = (Inl TypeError, (init w)\<lparr>level := nameToLevel (log_level a)\<rparr>)"
  | (mkdir_error) wd e where "work_dir a = Some wd" "mkdir_or_exist env wd w = Inl e"
      "main env a cfg w = (Inl e, (init w)\<lparr>level := nameToLevel (log_level a)\<rparr>)"
  | (started) wd w' where "work_dir a = Some wd" "mkdir_or_exist env wd w = Inr w'"
proof (cases "work_dir a")
  case None
  show ?thesis by (rule no_dir [OF None main_no_work_dir [OF None]])
next
  case (Some wd)
  show ?thesis
  proof (cases "mkdir_or_exist env wd w")
    case (Inl e)
    show ?thesis by (rule mkdir_error [OF Some Inl main_mkdir_error [OF Some Inl]])
  next
    case (Inr w')
    show ?thesis by (rule started [OF Some Inr])
  qed
qed

lemma visualize_fin_stores [simp]: "Store p v \<notin> set (visualize_fin cfg)"
  by (simp add: visualize_fin_def split: option.splits)

text \<open>Every run of main that gets to create the flag is a run of steps that carry the flag 0.\<close>

lemma main_run:
  assumes "main env a cfg w = (r, s)" "work_dir a = Some wd" "mkdir_or_exist env wd w = Inr w'"
  shows "\<exists>steps res fin. stage_run 0 steps res fin (started a w') (r, s) \<and>
           (\<forall>st\<in>set steps. ret_value_of (snd st) = 0) \<and>
           calls fin = [] \<and> new_values fin = [] \<and> (\<forall>c l b x. Ran c l b x \<notin> set fin) \<and>
           (\<forall>r v. Store r v \<notin> set fin)"
  using assms
proof (cases rule: main_progress)
  case export
  show ?thesis
    by (intro exI conjI, rule export(2)) (auto dest: export_step_facts)
next
  case split
  show ?thesis
    by (intro exI conjI, rule split(3)) (auto dest: export_step_facts split_step_facts)
next
  case backend
  show ?thesis
    by (intro exI conjI, rule backend(5))
      (auto dest: export_step_facts split_step_facts backend_step_facts)
next
  case visualize
  show ?thesis
    by (intro exI conjI, rule visualize(6))
      (auto dest: export_step_facts split_step_facts backend_step_facts visualize_step_facts)
qed

lemma main_ran_events:
  assumes m: "main env a cfg w = (r, s)" and e: "Ran c l b x \<in> set (trace s)"
  shows "l = nameToLevel (log_level a) \<and> b = 0 \<and> ret_value_of c = 0"
proof (cases rule: main_cases [where a = a and env = env and w = w and cfg = cfg])
  case no_dir
  then show ?thesis using m e by (auto simp: init_def)
next
  case (mkdir_error wd e')
  then show ?thesis using m e by (auto simp: init_def)
next
  case (started wd w')
  from main_run [OF m started] obtain steps res fin where
    run: "stage_run 0 steps res fin (started a w') (r, s)"
    and fl: "\<forall>st\<in>set steps. ret_value_of (snd st) = 0"
    and nf: "\<forall>c l b x. Ran c l b x \<notin> set fin"
    by blast
  from nf have "Ran c l b x \<notin> set fin" by blast
  from stage_run_events [OF run e this]
  have "c \<in> snd ` set steps \<and> l = nameToLevel (log_level a) \<and> b = 0" by simp
  then show ?thesis using fl by auto
qed




lemma create_process_trace:
  "\<exists>x rest. trace (snd (create_process env name c rvo s)) =
      trace s @ [Log Info (name @ '' start.''), Ran c (level s) (heap s (ret_value_of c)) x] @ rest"
  by (cases "collab env c (level s) (world s, heap s)"; cases rvo)
    (simp_all add: create_process_def target_wrapper_def run_target_def log_def spawned_def Let_def)

lemma stage_run_clean:
  assumes "stage_run rv steps res fin s (r, s')" "failed (trace s') = []"
  shows "r = res \<and> trace s' = trace s @ ok_run (level s) steps @ fin"
  using assms(1)
proof (cases rule: stage_run_cases)
  case complete
  then show ?thesis by simp
next
  case (exited pre st post x)
  have "failed (trace s') = failed (trace s) @ failed (ok_run (level s) pre) @
      failed (fail_events (level s) st x)"
    by (simp only: exited(4) failed_append)
  then have "failed (trace s') = failed (trace s) @ [snd st]"
    using failed_fail_events [OF exited(2), of "level s" st] by (simp only: failed_ok_run append_Nil)
  then show ?thesis using assms(2) by simp
qed

lemma prefix_filter: "prefix xs ys \<Longrightarrow> prefix (filter P xs) (filter P ys)"
  by (auto simp: prefix_def)

lemma filter_kind_other:
  "\<forall>st\<in>set steps. kind_of (snd st) = k' \<Longrightarrow> k \<noteq> k' \<Longrightarrow>
   filter (\<lambda>c. kind_of c = k) (map snd steps) = []"
  by (induction steps) auto

lemma filter_kind_same:
  "\<forall>st\<in>set steps. kind_of (snd st) = k \<Longrightarrow>
   filter (\<lambda>c. kind_of c = k) (map snd steps) = map snd steps"
  by (induction steps) auto

lemma stage_kinds:
  "\<forall>st\<in>set (export_steps a cfg wd rv). kind_of (snd st) = Export"
  "\<forall>st\<in>set (split_steps cfg wd rv files). kind_of (snd st) = Split"
  "\<forall>st\<in>set (backend_steps env a cfg wd rv files). kind_of (snd st) = Compile"
  "\<forall>st\<in>set (visualize_steps a cfg rv files). kind_of (snd st) = Inference"
proof -
  show "\<forall>st\<in>set (export_steps a cfg wd rv). kind_of (snd st) = Export"
    by (rule ballI) (simp add: export_step_facts)
  show "\<forall>st\<in>set (split_steps cfg wd rv files). kind_of (snd st) = Split"
    by (rule ballI) (simp add: split_step_facts)
  show "\<forall>st\<in>set (backend_steps env a cfg wd rv files). kind_of (snd st) = Compile"
    by (rule ballI) (simp add: backend_step_facts)
  show "\<forall>st\<in>set (visualize_steps a cfg rv files). kind_of (snd st) = Inference"
    by (rule ballI) (simp add: visualize_step_facts)
qed

lemmas kind_filters =
  filter_kind_other [OF stage_kinds(1)] filter_kind_other [OF stage_kinds(2)]
  filter_kind_other [OF stage_kinds(3)] filter_kind_other [OF stage_kinds(4)]
  filter_kind_same [OF stage_kinds(1)] filter_kind_same [OF stage_kinds(2)]
  filter_kind_same [OF stage_kinds(3)] filter_kind_same [OF stage_kinds(4)]

text \<open>The calls of one kind in a run are a prefix of the planned calls of that kind.\<close>

lemma stage_run_calls_of:
  assumes "stage_run rv steps res fin s (r, s')" "calls fin = []" "calls (trace s) = []"
  shows "prefix (calls_of k (trace s')) (filter (\<lambda>c. kind_of c = k) (map snd steps))"
  using stage_run_prefix [OF assms(1,2)] assms(3)
  by (simp add: calls_of_def prefix_filter)

lemma started_calls [simp]: "calls (trace (started a w')) = []"
  "failed (trace (started a w')) = []"
  by (simp_all add: started_def)

lemma no_split_params:
  assumes "apply_marks cfg = Some True" "split_params cfg = None"
  shows "split_steps cfg wd rv files = []" "split_res cfg files = Inl AssertionError"
  using assms by (simp_all add: split_steps_def split_res_def)

lemma visualize_fin_failed [simp]: "failed (visualize_fin cfg) = []"
  by (simp add: visualize_fin_def split: option.splits)

lemma viz_calls:
  "codebase cfg = None \<Longrightarrow> visualize_steps a cfg rv files = []"
  "codebase cfg = Some cb \<Longrightarrow>
   map snd (visualize_steps a cfg rv files) =
     [Inference_model (model_cfg a) files (img a) cb (get_backend cfg) (device a)
        (''output_'' @ get_backend cfg @ ''.jpg'') (show_result a) rv,
      Inference_model (model_cfg a) [checkpoint a] (img a) cb ''pytorch'' (device a)
        ''output_pytorch.jpg'' (show_result a) rv]"
  by (simp_all add: visualize_steps_def viz_steps_def)

lemma other_backend:
  assumes "get_backend cfg \<noteq> ''tensorrt''"
  shows "backend_steps env a cfg wd rv files = []" "backend_paths cfg wd files = files"
    "backend_res env cfg files = Inr ()"
  using assms by (simp_all add: backend_steps_def backend_paths_def backend_res_def)

text \<open>A run that returns normally ran every step of every stage.\<close>

lemma main_success:
  assumes m: "main env a cfg w = (Inr (), s)"
  obtains wd cb where "work_dir a = Some wd" "codebase cfg = Some cb"
    "onnx_files s = split_files cfg wd (exported_files cfg wd)"
    "backend_files s = backend_paths cfg wd (split_files cfg wd (exported_files cfg wd))"
    "calls (trace s) =
       map snd (export_steps a cfg wd 0 @ split_steps cfg wd 0 (exported_files cfg wd) @
          backend_steps env a cfg wd 0 (split_files cfg wd (exported_files cfg wd)) @
          visualize_steps a cfg 0
            (backend_paths cfg wd (split_files cfg wd (exported_files cfg wd))))"
    "failed (trace s) = []"
proof (cases rule: main_cases [where a = a and env = env and w = w and cfg = cfg])
  case no_dir
  then show ?thesis using m by simp
next
  case (mkdir_error wd e)
  then show ?thesis using m by simp
next
  case (started wd w')
  note Some = started(1)
  from m started show ?thesis
  proof (cases rule: main_progress)
    case visualize
    from visualize(6) show ?thesis
    proof (cases rule: stage_run_cases)
      case complete
      from complete(1) obtain cb where cb: "codebase cfg = Some cb"
        by (cases "codebase cfg") (simp_all add: visualize_res_def)
      show ?thesis
        by (rule that [OF Some cb visualize(4,5)]) (simp_all add: complete(3))
    qed simp
  qed simp_all
qed

lemma output_names_differ:
  "b \<noteq> ''pytorch'' \<Longrightarrow> ''output_'' @ b @ ''.jpg'' \<noteq> ''output_pytorch.jpg''"
proof
  assume b: "b \<noteq> ''pytorch''" and e: "''output_'' @ b @ ''.jpg'' = ''output_pytorch.jpg''"
  have "''output_pytorch.jpg'' = ''output_'' @ ''pytorch'' @ ''.jpg''" by simp
  with e have "''output_'' @ b @ ''.jpg'' = ''output_'' @ ''pytorch'' @ ''.jpg''" by (simp only:)
  then have "b = ''pytorch''" by (simp only: same_append_eq append_same_eq)
  with b show False by simp
qed

lemmas eval_defs = main_def init_def mp_Value_def convert_onnx_def split_model_def
  convert_backend_def visualize_def and_then_def create_process_def log_def target_wrapper_def
  run_target_def spawned_def env_failing_def args0_def get_backend_def engine_file_def
  get_model_params_def trt_triples_def calls_of_def cfg_default_def cfg_split_trt_def
  cfg_no_split_def cfg_pytorch_def cfg_mismatch_def
  onnx_name_def osp_join_def osp_split_def osp_splitext_def rfind_def Let_def

section \<open>The claims\<close>

text \<open>
  Claim C10.  When \<open>create_process\<close> is called with no result flag (\<^verbatim>\<open>ret_value\<close> is
  \<^verbatim>\<open>None\<close>), it performs no check after the worker has finished: whatever the worker did
  to the world and to the shared memory, the runner returns normally, and what it added to
  the trace is the start line and the worker's run, with neither a success line nor an error
  line nor an exit.
\<close>

theorem create_process_without_flag:
  "create_process env name c None s =
     (Inr (),
      s\<lparr>world := fst (collab env c (level s) (world s, heap s)),
        heap := snd (collab env c (level s) (world s, heap s)),
        trace := trace s @
          [Log Info (name @ '' start.''),
           Ran c (level s) (heap s (ret_value_of c))
             (snd (collab env c (level s) (world s, heap s)) (ret_value_of c))]\<rparr>)"
  by (simp add: create_process_def target_wrapper_def run_target_def log_def spawned_def
      Let_def case_prod_beta)

theorem create_process_without_flag_witness:
  "create_process (env_failing (\<lambda>_. True)) ''torch2onnx''
     (Extract_model ''a.onnx'' ''in'' ''out'' ''b.onnx'' 0) None (init ()) =
   (Inr (),
    (init ())\<lparr>world := (), heap := (\<lambda>_. 0)(0 := 1),
      trace := [Log Info ''torch2onnx start.'',
                Ran (Extract_model ''a.onnx'' ''in'' ''out'' ''b.onnx'' 0) 30 0 1]\<rparr>)"
  using create_process_without_flag [of "env_failing (\<lambda>_. True)" "''torch2onnx''"
      "Extract_model ''a.onnx'' ''in'' ''out'' ''b.onnx'' 0" "init ()"]
  by (simp add: env_failing_def init_def)

text \<open>
  Claim C9.  For every step launched through \<open>create_process\<close>, the collaborator runs in a
  worker whose root logger has been set to the level the driver's root logger had when the
  step was launched (a freshly spawned worker would be at 30); in a run of \<open>main\<close> that is
  the level named by \<^verbatim>\<open>--log-level\<close>, for every collaborator that runs.
\<close>

theorem worker_log_level:
  "(\<exists>b x rest. trace (snd (create_process env name c rvo s)) =
      trace s @ [Log Info (name @ '' start.''), Ran c (level s) b x] @ rest) \<and>
   (\<forall>c' l b x. Ran c' l b x \<in> set (trace (snd (main env a cfg w))) \<longrightarrow>
      l = nameToLevel (log_level a))"
proof (intro conjI allI impI)
  show "\<exists>b x rest. trace (snd (create_process env name c rvo s)) =
      trace s @ [Log Info (name @ '' start.''), Ran c (level s) b x] @ rest"
    using create_process_trace [of env name c rvo s] by (elim exE) (intro exI)
next
  fix c' l b x
  assume "Ran c' l b x \<in> set (trace (snd (main env a cfg w)))"
  then show "l = nameToLevel (log_level a)"
    using main_ran_events [of env a cfg w "fst (main env a cfg w)" "snd (main env a cfg w)"]
    by simp
qed

theorem worker_log_level_witness:
  "Ran (Torch2onnx ''demo.jpg'' ''work'' ''end2end.onnx'' ''deploy.py'' ''model.py'' ''ckpt.pth''
          ''cpu'' 0) 10 0 0
     \<in> set (trace (snd (main (env_failing (\<lambda>_. False)) args0 cfg_default ()))) \<and>
   (10 :: nat) = nameToLevel (log_level args0) \<and> root_level spawned = 30"
  using worker_log_level [of "env_failing (\<lambda>_. False)" "''torch2onnx''"
      "Torch2onnx ''demo.jpg'' ''work'' ''end2end.onnx'' ''deploy.py'' ''model.py'' ''ckpt.pth''
          ''cpu'' 0" None "init ()" args0 cfg_default "()"]
  by (simp add: eval_defs cfg_default_def)

text \<open>
  Claim C1, at the run in which the export worker leaves the flag at 1.  The driver logs
  the error line of the step and stops, with no later collaborator run; but \<^verbatim>\<open>exit()\<close> is
  called with no status, so the process ends with exit status 0, not with a non-zero one.
\<close>

theorem failed_step_exits_with_status_zero:
  "fst (main (env_failing (\<lambda>c. kind_of c = Export)) args0 cfg_default ()) = Inl (SystemExit None) \<and>
   exit_status (fst (main (env_failing (\<lambda>c. kind_of c = Export)) args0 cfg_default ())) = 0 \<and>
   trace (snd (main (env_failing (\<lambda>c. kind_of c = Export)) args0 cfg_default ())) =
     [NewValue 0 0, Log Info ''torch2onnx start.'',
      Ran (Torch2onnx ''demo.jpg'' ''work'' ''end2end.onnx'' ''deploy.py'' ''model.py''
             ''ckpt.pth'' ''cpu'' 0) 10 0 1,
      Log Error ''torch2onnx failed.'']"
  by (simp add: eval_defs cfg_default_def)

text \<open>
  Claim C5.  When the configured backend is not \<^verbatim>\<open>tensorrt\<close>, no run invokes the
  backend-compile collaborator, and the visualization calls of a run are, in order, a
  beginning of these two: the backend visualization, whose file list is the intermediate
  file list \<open>onnx_files\<close> unchanged, and the reference visualization.  On a run that
  returns normally both are made, and the backend file list equals the intermediate one.
\<close>

theorem other_backend_runs_on_onnx:
  assumes m: "main env a cfg w = (r, s)" and nb: "get_backend cfg \<noteq> ''tensorrt''"
  shows "calls_of Compile (trace s) = [] \<and>
    (codebase cfg = None \<longrightarrow> calls_of Inference (trace s) = []) \<and>
    (\<forall>cb. codebase cfg = Some cb \<longrightarrow>
       prefix (calls_of Inference (trace s))
         [Inference_model (model_cfg a) (onnx_files s) (img a) cb (get_backend cfg) (device a)
            (''output_'' @ get_backend cfg @ ''.jpg'') (show_result a) 0,
          Inference_model (model_cfg a) [checkpoint a] (img a) cb ''pytorch'' (device a)
            ''output_pytorch.jpg'' (show_result a) 0]) \<and>
    (r = Inr () \<longrightarrow> backend_files s = onnx_files s \<and> length (calls_of Inference (trace s)) = 2)"
proof (cases rule: main_cases [where a = a and env = env and w = w and cfg = cfg])
  case no_dir
  then have "r = Inl TypeError" "trace s = []"
    using m by (auto simp: init_def)
  then show ?thesis by (simp add: calls_of_def)
next
  case (mkdir_error wd e)
  then have "r = Inl e" "trace s = []"
    using m by (auto simp: init_def)
  then show ?thesis by (simp add: calls_of_def)
next
  case (started wd w')
  note ob = other_backend(1,2) [OF nb]
  have success: "backend_files s = onnx_files s \<and> length (calls_of Inference (trace s)) = 2"
    if "r = Inr ()"
  proof -
    from m that have "main env a cfg w = (Inr (), s)" by simp
    then show ?thesis
    proof (cases rule: main_success)
      case (1 wd' cb)
      show ?thesis
        by (simp add: 1(3,4,5) ob calls_of_def kind_filters viz_calls(2) [OF 1(2)])
    qed
  qed
  from m started show ?thesis
  proof (cases rule: main_progress)
    case export
    have p: "\<And>k. prefix (calls_of k (trace s))
        (filter (\<lambda>c. kind_of c = k) (map snd (export_steps a cfg wd 0)))"
      by (rule stage_run_calls_of [OF export(2)]) simp_all
    show ?thesis
      using p [of Compile] p [of Inference] export(1) by (simp add: kind_filters)
  next
    case split
    have p: "\<And>k. prefix (calls_of k (trace s))
        (filter (\<lambda>c. kind_of c = k)
           (map snd (export_steps a cfg wd 0 @ split_steps cfg wd 0 (exported_files cfg wd))))"
      by (rule stage_run_calls_of [OF split(3)]) simp_all
    show ?thesis
      using p [of Compile] p [of Inference] split(1) by (simp add: kind_filters)
  next
    case backend
    have p: "\<And>k. prefix (calls_of k (trace s))
        (filter (\<lambda>c. kind_of c = k)
           (map snd (export_steps a cfg wd 0 @ split_steps cfg wd 0 (exported_files cfg wd) @
              backend_steps env a cfg wd 0 (split_files cfg wd (exported_files cfg wd)))))"
      by (rule stage_run_calls_of [OF backend(5)]) simp_all
    show ?thesis
      using p [of Compile] p [of Inference] backend(1) by (simp add: kind_filters ob)
  next
    case visualize
    have p: "\<And>k. prefix (calls_of k (trace s))
        (filter (\<lambda>c. kind_of c = k)
           (map snd (export_steps a cfg wd 0 @ split_steps cfg wd 0 (exported_files cfg wd) @
              backend_steps env a cfg wd 0 (split_files cfg wd (exported_files cfg wd)) @
              visualize_steps a cfg 0
                (backend_paths cfg wd (split_files cfg wd (exported_files cfg wd))))))"
      by (rule stage_run_calls_of [OF visualize(6)]) simp_all
    have c: "calls_of Compile (trace s) = []"
      using p [of Compile] by (simp add: kind_filters ob)
    have i: "prefix (calls_of Inference (trace s))
        (map snd (visualize_steps a cfg 0 (onnx_files s)))"
      using p [of Inference] by (simp add: kind_filters ob visualize(4))
    show ?thesis using c i success by (auto simp: viz_calls)
  qed
qed

theorem other_backend_runs_on_onnx_witness:
  "get_backend cfg_default \<noteq> ''tensorrt'' \<and> codebase cfg_default = Some ''mmdet'' \<and>
   fst (main (env_failing (\<lambda>_. False)) args0 cfg_default ()) = Inr () \<and>
   onnx_files (snd (main (env_failing (\<lambda>_. False)) args0 cfg_default ())) =
     [''work/end2end.onnx''] \<and>
   backend_files (snd (main (env_failing (\<lambda>_. False)) args0 cfg_default ())) =
     [''work/end2end.onnx''] \<and>
   calls_of Compile (trace (snd (main (env_failing (\<lambda>_. False)) args0 cfg_default ()))) = [] \<and>
   calls_of Inference (trace (snd (main (env_failing (\<lambda>_. False)) args0 cfg_default ()))) =
     [Inference_model ''model.py'' [''work/end2end.onnx''] ''demo.jpg'' ''mmdet'' ''default''
        ''cpu'' ''output_default.jpg'' False 0,
      Inference_model ''model.py'' [''ckpt.pth''] ''demo.jpg'' ''mmdet'' ''pytorch''
        ''cpu'' ''output_pytorch.jpg'' False 0]"
  using other_backend_runs_on_onnx [of "env_failing (\<lambda>_. False)" args0 cfg_default "()"
      "fst (main (env_failing (\<lambda>_. False)) args0 cfg_default ())"
      "snd (main (env_failing (\<lambda>_. False)) args0 cfg_default ())"]
  by (simp add: eval_defs)

text \<open>
  Claim C7, as stated, says that the two visualizations of a successful run write two
  distinct files.  With the backend identifier \<^verbatim>\<open>pytorch\<close> in the configuration, and workers
  that leave the flag at zero, the run is successful and both write
  \<^verbatim>\<open>output_pytorch.jpg\<close>.
\<close>

theorem same_output_name_counterexample:
  "fst (main (env_failing (\<lambda>_. False)) args0 cfg_pytorch ()) = Inr () \<and>
   map output_file_of
     (calls_of Inference (trace (snd (main (env_failing (\<lambda>_. False)) args0 cfg_pytorch ())))) =
     [''output_pytorch.jpg'', ''output_pytorch.jpg''] \<and>
   \<not> distinct (map output_file_of
     (calls_of Inference (trace (snd (main (env_failing (\<lambda>_. False)) args0 cfg_pytorch ())))))"
  by (simp add: eval_defs)

text \<open>
  Claim C7, amended.  On every run that returns normally, exactly two visualization calls
  are made: the first with the backend files, the configured backend identifier and the
  output file \<^verbatim>\<open>output_<backend>.jpg\<close>, the second with the checkpoint, the identifier
  \<^verbatim>\<open>pytorch\<close> and the output file \<^verbatim>\<open>output_pytorch.jpg\<close>; the two file names are distinct
  whenever the configured backend identifier is not \<^verbatim>\<open>pytorch\<close>.
\<close>

theorem two_visualizations:
  assumes m: "main env a cfg w = (r, s)" and ok: "r = Inr ()"
  shows "\<exists>cb. codebase cfg = Some cb \<and>
    calls_of Inference (trace s) =
      [Inference_model (model_cfg a) (backend_files s) (img a) cb (get_backend cfg) (device a)
         (''output_'' @ get_backend cfg @ ''.jpg'') (show_result a) 0,
       Inference_model (model_cfg a) [checkpoint a] (img a) cb ''pytorch'' (device a)
         ''output_pytorch.jpg'' (show_result a) 0] \<and>
    map output_file_of (calls_of Inference (trace s)) =
      [''output_'' @ get_backend cfg @ ''.jpg'', ''output_pytorch.jpg''] \<and>
    (get_backend cfg \<noteq> ''pytorch'' \<longrightarrow>
       distinct (map output_file_of (calls_of Inference (trace s))))"
proof -
  from m ok have "main env a cfg w = (Inr (), s)" by simp
  then show ?thesis
  proof (cases rule: main_success)
    case (1 wd cb)
    have c: "calls_of Inference (trace s) =
      [Inference_model (model_cfg a) (backend_files s) (img a) cb (get_backend cfg) (device a)
         (''output_'' @ get_backend cfg @ ''.jpg'') (show_result a) 0,
       Inference_model (model_cfg a) [checkpoint a] (img a) cb ''pytorch'' (device a)
         ''output_pytorch.jpg'' (show_result a) 0]"
      by (simp add: 1(4,5) calls_of_def kind_filters viz_calls(2) [OF 1(2)])
    have d: "distinct (map output_file_of (calls_of Inference (trace s)))"
      if "get_backend cfg \<noteq> ''pytorch''"
      using output_names_differ [OF that] by (simp only: c list.map output_file_of.simps
          distinct.simps set_simps) simp
    show ?thesis using 1(2) c d by simp
  qed
qed

theorem two_visualizations_witness:
  "fst (main (env_failing (\<lambda>_. False)) args0 cfg_split_trt ()) = Inr () \<and>
   get_backend cfg_split_trt \<noteq> ''pytorch'' \<and>
   backend_files (snd (main (env_failing (\<lambda>_. False)) args0 cfg_split_trt ())) =
     [''work/head.engine'', ''work/tail_fp16.engine''] \<and>
   calls_of Inference (trace (snd (main (env_failing (\<lambda>_. False)) args0 cfg_split_trt ()))) =
     [Inference_model ''model.py'' [''work/head.engine'', ''work/tail_fp16.engine''] ''demo.jpg''
        ''mmdet'' ''tensorrt'' ''cpu'' ''output_tensorrt.jpg'' False 0,
      Inference_model ''model.py'' [''ckpt.pth''] ''demo.jpg'' ''mmdet'' ''pytorch''
        ''cpu'' ''output_pytorch.jpg'' False 0]"
  using two_visualizations [of "env_failing (\<lambda>_. False)" args0 cfg_split_trt "()"
      "fst (main (env_failing (\<lambda>_. False)) args0 cfg_split_trt ())"
      "snd (main (env_failing (\<lambda>_. False)) args0 cfg_split_trt ())"]
  by (simp add: eval_defs)




text \<open>
  Claim C6, as stated: with \<^verbatim>\<open>apply_marks\<close> true and no \<^verbatim>\<open>split_params\<close> section the driver
  fails with a configuration error.  The check comes after the export step: when the export
  worker leaves the flag at 1, the run ends there with \<^verbatim>\<open>SystemExit\<close>, and the
  configuration error is never raised.
\<close>

theorem split_params_missing_counterexample:
  "apply_marks cfg_no_split = Some True \<and> split_params cfg_no_split = None \<and>
   fst (main (env_failing (\<lambda>c. kind_of c = Export)) args0 cfg_no_split ()) =
     Inl (SystemExit None) \<and>
   fst (main (env_failing (\<lambda>c. kind_of c = Export)) args0 cfg_no_split ()) \<noteq>
     Inl AssertionError"
  by (simp add: eval_defs)

text \<open>
  Claim C6, amended.  With \<^verbatim>\<open>apply_marks\<close> true and no \<^verbatim>\<open>split_params\<close> section, no run
  invokes the split collaborator, nor any collaborator behind it, and no run returns
  normally: the split stage is not skipped.  Every run that gets to the split stage (the
  work directory is given and can be made, the export file name is configured, and the
  export leaves the flag at zero) ends there with the failed assertion.
\<close>

theorem split_params_required:
  assumes m: "main env a cfg w = (r, s)"
    and marks: "apply_marks cfg = Some True" and none: "split_params cfg = None"
  shows "calls_of Split (trace s) = [] \<and> calls_of Compile (trace s) = [] \<and>
         calls_of Inference (trace s) = [] \<and> r \<noteq> Inr () \<and>
         (\<forall>wd w' f. work_dir a = Some wd \<and> mkdir_or_exist env wd w = Inr w' \<and>
            pytorch2onnx cfg = Some (Some f) \<and> failed (trace s) = []
            \<longrightarrow> r = Inl AssertionError)"
proof (cases rule: main_cases [where a = a and env = env and w = w and cfg = cfg])
  case no_dir
  then have "r = Inl TypeError" "trace s = []"
    using m by (auto simp: init_def)
  then show ?thesis using no_dir(1) by (simp add: calls_of_def)
next
  case (mkdir_error wd e)
  then have "r = Inl e" "trace s = []"
    using m by (auto simp: init_def)
  then show ?thesis using mkdir_error(1,2) by (simp add: calls_of_def)
next
  case (started wd w')
  note ns = no_split_params [OF marks none]
  from m started show ?thesis
  proof (cases rule: main_progress)
    case export
    have p: "\<And>k. prefix (calls_of k (trace s))
        (filter (\<lambda>c. kind_of c = k) (map snd (export_steps a cfg wd 0)))"
      by (rule stage_run_calls_of [OF export(2)]) simp_all
    have c: "calls_of Split (trace s) = []" "calls_of Compile (trace s) = []"
      "calls_of Inference (trace s) = []"
      using p [of Split] p [of Compile] p [of Inference] by (simp_all add: kind_filters)
    have "r = Inl AssertionError"
      if "\<exists>f. pytorch2onnx cfg = Some (Some f)" and "failed (trace s) = []"
    proof -
      from stage_run_clean [OF export(2) that(2)] have "r = export_res cfg" by simp
      then have "r = Inr ()" using that(1) by (auto simp: export_res_def)
      then show ?thesis using export(1) by simp
    qed
    then show ?thesis using c export(1) by blast
  next
    case split
    have p: "\<And>k. prefix (calls_of k (trace s))
        (filter (\<lambda>c. kind_of c = k) (map snd (export_steps a cfg wd 0)))"
      using stage_run_calls_of [OF split(3)] by (simp add: ns)
    have c: "calls_of Split (trace s) = []" "calls_of Compile (trace s) = []"
      "calls_of Inference (trace s) = []"
      using p [of Split] p [of Compile] p [of Inference] by (simp_all add: kind_filters)
    have "r = Inl AssertionError" if "failed (trace s) = []"
      using stage_run_clean [OF split(3) that] by (simp add: ns)
    then show ?thesis using c split(1) by blast
  next
    case backend
    then show ?thesis by (simp add: ns)
  next
    case visualize
    then show ?thesis by (simp add: ns)
  qed
qed

theorem split_params_required_witness:
  "apply_marks cfg_no_split = Some True \<and> split_params cfg_no_split = None \<and>
   work_dir args0 = Some ''work'' \<and>
   mkdir_or_exist (env_failing (\<lambda>_. False)) ''work'' () = Inr () \<and>
   pytorch2onnx cfg_no_split = Some (Some ''end2end.onnx'') \<and>
   failed (trace (snd (main (env_failing (\<lambda>_. False)) args0 cfg_no_split ()))) = [] \<and>
   fst (main (env_failing (\<lambda>_. False)) args0 cfg_no_split ()) = Inl AssertionError \<and>
   calls (trace (snd (main (env_failing (\<lambda>_. False)) args0 cfg_no_split ()))) =
     [Torch2onnx ''demo.jpg'' ''work'' ''end2end.onnx'' ''deploy.py'' ''model.py'' ''ckpt.pth''
        ''cpu'' 0]"
  using split_params_required [of "env_failing (\<lambda>_. False)" args0 cfg_no_split "()"
      "fst (main (env_failing (\<lambda>_. False)) args0 cfg_no_split ())"
      "snd (main (env_failing (\<lambda>_. False)) args0 cfg_no_split ())"]
  by (simp add: eval_defs)

end
